theory Spec2Isabelle
  imports Main "HOL-Library.AList"
begin

section \<open>Configuration values\<close>

text \<open>
  The configurations composed by \<^verbatim>\<open>packages/core/src/config.ts\<close> are JavaScript
  option bags: nested objects, arrays, strings, booleans, regular expressions and a few
  closures. They are modelled as a tree. An object is an association list in insertion
  order (lookup takes the first binding of a key); a regular expression is kept by its
  source text; the three closures the file creates are kept by name together with the
  values they capture; numbers are the integers, printed in decimal (the exponent form
  JavaScript gives to large numbers is not modelled).

  An array, a closure, a regular expression and a plugin are objects too, and an
  assignment can give them named properties: \<open>JWithProps v kvs\<close> is the value \<open>v\<close>
  carrying the named properties \<open>kvs\<close>.
\<close>

datatype func =
    ModuleImportWarn
  | BundlelessRequest string
  | RspackTarget "string list"

datatype json =
    JUndefined
  | JNull
  | JBool bool
  | JNum int
  | JStr string
  | JRegExp string
  | JFunc func
  | JPluginDts json
  | JArr "json list"
  | JObj "(string \<times> json) list"
  | JWithProps json "(string \<times> json) list"

text \<open>
  What the functions throw: an \<open>Error\<close> with its message, the \<open>TypeError\<close> of a property
  access or assignment the language refuses, and the \<open>SyntaxError\<close> of the \<open>RegExp\<close>
  constructor, with the source it refused.
\<close>

datatype error = Error string | TypeError | SyntaxError string

definition backslash :: char where
  "backslash = CHR 0x5C"

fun truthy :: "json \<Rightarrow> bool" where
  "truthy JUndefined = False"
| "truthy JNull = False"
| "truthy (JBool b) = b"
| "truthy (JNum n) = (n \<noteq> 0)"
| "truthy (JStr s) = (s \<noteq> [])"
| "truthy _ = True"

fun nullish :: "json \<Rightarrow> bool" where
  "nullish JUndefined = True"
| "nullish JNull = True"
| "nullish _ = False"

text \<open>\<open>a ?? b\<close>\<close>

definition coalesce :: "json \<Rightarrow> json \<Rightarrow> json" where
  "coalesce a b = (if nullish a then b else a)"

text \<open>A destructuring or parameter default \<open>x = d\<close>: it applies to \<open>undefined\<close> only.\<close>

definition default_to :: "json \<Rightarrow> json \<Rightarrow> json" where
  "default_to d x = (if x = JUndefined then d else x)"

subsection \<open>Decimal rendering of numbers\<close>

definition digit :: "nat \<Rightarrow> char" where
  "digit n = ''0123456789'' ! n"

function decimal :: "nat \<Rightarrow> string" where
  "decimal n = (if 10 \<le> n then decimal (n div 10) @ [digit (n mod 10)] else [digit n])"
  by pat_completeness auto
termination
  by (relation "measure id") auto

declare decimal.simps [simp del]

definition decimal_int :: "int \<Rightarrow> string" where
  "decimal_int i = (if 0 \<le> i then decimal (nat i) else CHR ''-'' # decimal (nat (- i)))"

fun join_with :: "string \<Rightarrow> string list \<Rightarrow> string" where
  "join_with sep [] = []"
| "join_with sep [x] = x"
| "join_with sep (x # y # ys) = x @ sep @ join_with sep (y # ys)"

subsection \<open>Property access\<close>

text \<open>
  The own enumerable properties of a value, as \<open>Object.keys\<close>, object spread and
  \<open>v[k]\<close> see them: the bindings of an object, the indices of an array, the indices of
  a string, and the named properties a value was given on top of its own; nothing for the
  other values. An object has one binding per key: of an association list that repeats a
  key only the first binding counts. The bindings are listed in insertion order;
  JavaScript lists the keys that are array indices first, in ascending order, which the
  model does not follow, and nothing below depends on the order of such keys.
\<close>

fun own_props :: "json \<Rightarrow> (string \<times> json) list" where
  "own_props (JObj kvs) = AList.clearjunk kvs"
| "own_props (JArr xs) = zip (map decimal [0..<length xs]) xs"
| "own_props (JStr s) = zip (map decimal [0..<length s]) (map (\<lambda>c. JStr [c]) s)"
| "own_props (JWithProps v kvs) =
     filter (\<lambda>kv. map_of kvs (fst kv) = None) (own_props v) @ AList.clearjunk kvs"
| "own_props _ = []"

definition object_keys :: "json \<Rightarrow> string list" where
  "object_keys v = map fst (own_props v)"

text \<open>
  \<open>v[k]\<close> and \<open>v.k\<close> on a value that is not null or undefined, and \<open>v?.k\<close> on any
  value. Where the source reads a property of a value that may be null or undefined
  without \<open>?.\<close>, the model tests \<open>nullish\<close> first and raises \<open>TypeError\<close>. The \<open>length\<close>
  of arrays and strings and the properties inherited from a prototype are not modelled;
  the file reads none of them from a configuration value.
\<close>

definition getp :: "json \<Rightarrow> string \<Rightarrow> json" where
  "getp v k = (case map_of (own_props v) k of Some x \<Rightarrow> x | None \<Rightarrow> JUndefined)"

text \<open>
  \<open>v.k = x\<close> for a key \<open>k\<close> that is a name, not an array index. The file is a module,
  so the assignment to a property of a primitive value raises a \<open>TypeError\<close>, as does the
  assignment to a property of \<open>null\<close> or \<open>undefined\<close>; every other value is an object
  and takes the property. The result is the value after the assignment. Objects that
  refuse the assignment (frozen ones, or ones with a setter for the key) are not modelled.
\<close>

definition set_prop :: "json \<Rightarrow> string \<Rightarrow> json \<Rightarrow> error + json" where
  "set_prop target k x =
     (case target of
        JUndefined \<Rightarrow> Inl TypeError
      | JNull \<Rightarrow> Inl TypeError
      | JBool b \<Rightarrow> Inl TypeError
      | JNum n \<Rightarrow> Inl TypeError
      | JStr s \<Rightarrow> Inl TypeError
      | JObj kvs \<Rightarrow> Inr (JObj (AList.update k x kvs))
      | JWithProps v kvs \<Rightarrow> Inr (JWithProps v (AList.update k x kvs))
      | other \<Rightarrow> Inr (JWithProps other [(k, x)]))"

text \<open>
  \<open>delete v.k\<close> for such a key, on a value that is not null or undefined: the named
  property goes, the elements of an array and the characters of a string stay. It does
  not throw.
\<close>

fun delete_prop :: "json \<Rightarrow> string \<Rightarrow> json" where
  "delete_prop (JObj kvs) k = JObj (AList.delete k kvs)"
| "delete_prop (JWithProps v kvs) k = JWithProps (delete_prop v k) (AList.delete k kvs)"
| "delete_prop v k = v"

text \<open>\<open>Array.isArray(v)\<close>, with the elements when it holds.\<close>

fun array_elements :: "json \<Rightarrow> json list option" where
  "array_elements (JArr xs) = Some xs"
| "array_elements (JWithProps v kvs) = array_elements v"
| "array_elements _ = None"

text \<open>\<open>{ ...base, ...v }\<close>: the properties of \<open>v\<close> written over those of the base, in order.\<close>

definition spread :: "(string \<times> json) list \<Rightarrow> json \<Rightarrow> (string \<times> json) list" where
  "spread base v = foldl (\<lambda>acc (k, x). AList.update k x acc) base (own_props v)"

text \<open>\<open>Array.from(new Set(xs))\<close>: the first occurrence of every element, in order.\<close>

definition unique :: "'a list \<Rightarrow> 'a list" where
  "unique xs = rev (remdups (rev xs))"

text \<open>
  \<open>String(v)\<close>, as a template literal and a property key apply it. The source text a
  closure prints as is not part of the model; it is rendered as \<open>[Function]\<close>.
\<close>

fun js_string :: "json \<Rightarrow> string" where
  "js_string JUndefined = ''undefined''"
| "js_string JNull = ''null''"
| "js_string (JBool b) = (if b then ''true'' else ''false'')"
| "js_string (JNum n) = decimal_int n"
| "js_string (JStr s) = s"
| "js_string (JRegExp s) = ''/'' @ s @ ''/''"
| "js_string (JFunc f) = ''[Function]''"
| "js_string (JPluginDts opts) = ''[object Object]''"
| "js_string (JArr xs) = join_with '','' (map (\<lambda>x. if nullish x then [] else js_string x) xs)"
| "js_string (JObj kvs) = ''[object Object]''"
| "js_string (JWithProps v kvs) = js_string v"

section \<open>The environment of a composition\<close>

text \<open>
  What the file imports and does not define: the merge of \<^verbatim>\<open>@rsbuild/core\<close>, the
  helpers of \<^verbatim>\<open>utils/helper\<close> and \<^verbatim>\<open>utils/syntax\<close>, the file system behind
  \<^verbatim>\<open>fast-glob\<close> and \<^verbatim>\<open>readPackageJson\<close>, and the functions of \<^verbatim>\<open>node:path\<close>.
  They are parameters of the model: every theorem below holds for all of them.

  The pattern grammar of the JavaScript engine is a parameter as well: \<open>regExpAccepts\<close>
  says of a source text whether \<open>new RegExp(source)\<close> returns; when it does not, the
  constructor throws a \<open>SyntaxError\<close>. The engine refuses, for one, \<open>^c++($|\/|\\)\<close> (nothing
  to repeat) and \<open>^a(b($|\/|\\)\<close> (unterminated group).

  Modelled from the spec: \<open>readPackageJson\<close> of \<^verbatim>\<open>utils/helper\<close> returns the parsed
  manifest, or \<open>undefined\<close> (here \<open>JUndefined\<close>) when the manifest is absent or
  unparsable, and has no side effect beyond the read; the other helpers are functions of
  their arguments as well, so the warnings of a composition are those that
  \<^verbatim>\<open>config.ts\<close> itself logs.
\<close>

record env =
  mergeRsbuildConfig :: "json list \<Rightarrow> json"
  omitDeep :: "json \<Rightarrow> string list \<Rightarrow> json"
  isObject :: "json \<Rightarrow> bool"
  readPackageJson :: "string \<Rightarrow> json"
  calcLongestCommonPath :: "string list \<Rightarrow> string option"
  transformSyntaxToBrowserslist :: "json \<Rightarrow> json"
  nodeBuiltInModules :: json
  glob :: "json list \<Rightarrow> string \<Rightarrow> error + string list"
  dirname :: "string \<Rightarrow> string"
  path_relative :: "string \<Rightarrow> string \<Rightarrow> string"
  path_parse :: "string \<Rightarrow> string \<times> string"
  path_join :: "string \<Rightarrow> string \<Rightarrow> string"
  regExpAccepts :: "string \<Rightarrow> bool"

section \<open>Auto-external\<close>

definition autoExternalWarning :: string where
  "autoExternalWarning =
     ''autoExternal configuration will not be applied due to read package.json failed''"

definition dependencyTypes :: "string list" where
  "dependencyTypes = [''dependencies'', ''peerDependencies'', ''devDependencies'']"

definition externalOptions :: "json \<Rightarrow> (string \<times> json) list" where
  "externalOptions autoExternal =
     spread [(''dependencies'', JBool True), (''peerDependencies'', JBool True),
             (''devDependencies'', JBool False)]
       (if autoExternal = JBool True then JObj [] else autoExternal)"

definition userExternalKeys :: "env \<Rightarrow> json \<Rightarrow> string list" where
  "userExternalKeys env userExternals =
     (if truthy userExternals \<and> isObject env userExternals then object_keys userExternals
      else [])"

text \<open>
  The pattern source of \<open>new RegExp(`^${dep}($|\\/|\\\\)`)\<close>: the name, between \<open>^\<close> and a
  group of three alternatives. The fragment keeps the source text.
\<close>

definition subpathPattern :: "string \<Rightarrow> string" where
  "subpathPattern dep =
     ''^'' @ dep @ ''($|'' @ [backslash] @ ''/|'' @ [backslash, backslash] @ '')''"

definition autoExternals :: "env \<Rightarrow> json \<Rightarrow> json \<Rightarrow> json \<Rightarrow> string list" where
  "autoExternals env autoExternal pkgJson userExternals =
     filter (\<lambda>name. name \<notin> set (userExternalKeys env userExternals))
       (foldl (\<lambda>prev type.
          if truthy (getp (JObj (externalOptions autoExternal)) type)
          then (if truthy (getp pkgJson type) then prev @ object_keys (getp pkgJson type)
                else prev)
          else prev) [] dependencyTypes)"

text \<open>
  The result is the warnings logged and the fragment returned. The patterns are
  constructed in the order of the names, so the first name whose pattern the engine
  refuses decides the \<open>SyntaxError\<close> thrown.
\<close>

definition composeAutoExternalConfig ::
    "env \<Rightarrow> json \<Rightarrow> json \<Rightarrow> json \<Rightarrow> string list \<times> (error + json)" where
  "composeAutoExternalConfig env autoExternal pkgJson userExternals =
     (if \<not> truthy autoExternal then ([], Inr (JObj []))
      else if \<not> truthy pkgJson then ([autoExternalWarning], Inr (JObj []))
      else
        let externals = autoExternals env autoExternal pkgJson userExternals;
            uniqueExternals = unique externals
        in ([],
            if externals \<noteq> []
            then (case find (\<lambda>dep. \<not> regExpAccepts env (subpathPattern dep)) uniqueExternals of
                    Some dep \<Rightarrow> Inl (SyntaxError (subpathPattern dep))
                  | None \<Rightarrow>
                      Inr (JObj [(''output'', JObj [(''externals'',
                        JArr (map (\<lambda>dep. JRegExp (subpathPattern dep)) uniqueExternals
                              @ map JStr uniqueExternals))])]))
            else Inr (JObj [])))"

section \<open>The built-in defaults\<close>

definition createInternalRsbuildConfig :: json where
  "createInternalRsbuildConfig = JObj [
     (''mode'', JStr ''production''),
     (''dev'', JObj [(''progressBar'', JBool False)]),
     (''tools'', JObj [
        (''htmlPlugin'', JBool False),
        (''rspack'', JObj [
           (''optimization'', JObj [(''moduleIds'', JStr ''named'')]),
           (''experiments'', JObj [(''rspackFuture'',
              JObj [(''bundlerInfo'', JObj [(''force'', JBool False)])])]),
           (''resolve'', JObj [(''extensionAlias'', JObj [
              (''.js'', JArr [JStr ''.ts'', JStr ''.tsx'', JStr ''.js'', JStr ''.jsx'']),
              (''.jsx'', JArr [JStr ''.tsx'', JStr ''.jsx'']),
              (''.mjs'', JArr [JStr ''.mts'', JStr ''.mjs'']),
              (''.cjs'', JArr [JStr ''.cts'', JStr ''.cjs''])])])])]),
     (''output'', JObj [
        (''filenameHash'', JBool False),
        (''minify'', JObj [
           (''js'', JBool True),
           (''css'', JBool False),
           (''jsOptions'', JObj [(''minimizerOptions'', JObj [
              (''mangle'', JBool False),
              (''minify'', JBool False),
              (''compress'', JObj [(''defaults'', JBool False), (''unused'', JBool True),
                                  (''dead_code'', JBool True), (''toplevel'', JBool True)]),
              (''format'', JObj [(''comments'', JStr ''all'')])])])]),
        (''distPath'', JObj [(''js'', JStr ''./'')])])]"

section \<open>The computed fragments\<close>

subsection \<open>Format\<close>

definition composeFormatConfig :: "json \<Rightarrow> error + json" where
  "composeFormatConfig format =
     (if format = JStr ''esm'' then
        Inr (JObj [(''tools'', JObj [(''rspack'', JObj [
          (''output'', JObj [(''module'', JBool True), (''chunkFormat'', JStr ''module''),
                            (''library'', JObj [(''type'', JStr ''modern-module'')])]),
          (''module'', JObj [(''parser'', JObj [(''javascript'',
                            JObj [(''importMeta'', JBool False)])])]),
          (''optimization'', JObj [(''concatenateModules'', JBool True)]),
          (''experiments'', JObj [(''outputModule'', JBool True)])])])])
      else if format = JStr ''cjs'' then
        Inr (JObj [(''tools'', JObj [(''rspack'', JObj [
          (''output'', JObj [(''iife'', JBool False), (''chunkFormat'', JStr ''commonjs''),
                            (''library'', JObj [(''type'', JStr ''commonjs'')])])])])])
      else if format = JStr ''umd'' then
        Inr (JObj [(''tools'', JObj [(''rspack'', JObj [
          (''output'', JObj [(''library'', JObj [(''type'', JStr ''umd'')])])])])])
      else Inl (Error (''Unsupported format: '' @ js_string format)))"

subsection \<open>Externals\<close>

definition composeExternalsConfig :: "json \<Rightarrow> json \<Rightarrow> error + json" where
  "composeExternalsConfig format externals =
     (if format = JStr ''esm'' then
        let userExternals = (case array_elements externals of
                               Some xs \<Rightarrow> xs | None \<Rightarrow> [externals])
        in Inr (JObj [
             (''output'', JObj [(''externals'',
                JArr (filter truthy (JFunc ModuleImportWarn # userExternals)))]),
             (''tools'', JObj [(''rspack'', JObj [(''externalsType'', JStr ''module-import'')])])])
      else if format = JStr ''cjs'' then
        Inr (JObj [
          (''output'', if truthy externals then JObj [(''externals'', externals)] else JObj []),
          (''tools'', JObj [(''rspack'', JObj [(''externalsType'', JStr ''commonjs'')])])])
      else if format = JStr ''umd'' then
        Inr (JObj [
          (''output'', if truthy externals then JObj [(''externals'', externals)] else JObj []),
          (''tools'', JObj [(''rspack'', JObj [(''externalsType'', JStr ''umd'')])])])
      else Inl (Error (''Unsupported format: '' @ js_string format)))"

subsection \<open>Auto-extension\<close>

text \<open>
  Modelled from the spec: \<open>getDefaultExtension\<close> of \<^verbatim>\<open>utils/extension\<close>, whose source
  is not at hand. The definition is the decision table of the extension policy:
  esm in a package of type commonjs gives \<open>.mjs\<close> and \<open>.d.mts\<close>, cjs in a package of type
  module gives \<open>.cjs\<close> and \<open>.d.cts\<close>, both only while auto-extension is on; every other
  row gives \<open>.js\<close> and \<open>.d.ts\<close>. A manifest that could not be read has no type.
\<close>

definition getDefaultExtension :: "json \<Rightarrow> json \<Rightarrow> json \<Rightarrow> string \<times> string" where
  "getDefaultExtension format pkgJson autoExtension =
     (if truthy autoExtension \<and> format = JStr ''esm''
         \<and> getp pkgJson ''type'' = JStr ''commonjs'' then (''.mjs'', ''.d.mts'')
      else if truthy autoExtension \<and> format = JStr ''cjs''
         \<and> getp pkgJson ''type'' = JStr ''module'' then (''.cjs'', ''.d.cts'')
      else (''.js'', ''.d.ts''))"

text \<open>The result is the fragment, the JS extension and the declaration extension.\<close>

definition composeAutoExtensionConfig :: "json \<Rightarrow> json \<Rightarrow> json \<Rightarrow> json \<times> string \<times> string" where
  "composeAutoExtensionConfig config autoExtension pkgJson =
     (let (jsExtension, dtsExtension) =
            getDefaultExtension (getp config ''format'') pkgJson autoExtension
      in (JObj [(''output'', JObj [(''filename'',
            JObj (spread [(''js'', JStr (''[name]'' @ jsExtension))]
                    (getp (getp config ''output'') ''filename'')))])],
          jsExtension, dtsExtension))"

subsection \<open>Syntax\<close>

definition lastTargetVersionsNode :: "json list" where
  "lastTargetVersionsNode = [JStr ''last 1 node versions'']"

definition lastTargetVersionsWeb :: "json list" where
  "lastTargetVersionsWeb =
     [JStr ''last 1 Chrome versions'', JStr ''last 1 Firefox versions'',
      JStr ''last 1 Edge versions'', JStr ''last 1 Safari versions'',
      JStr ''last 1 ios_saf versions'', JStr ''not dead'']"

definition composeSyntaxConfig :: "env \<Rightarrow> json \<Rightarrow> json \<Rightarrow> json" where
  "composeSyntaxConfig env syntax target =
     (if truthy syntax then
        JObj [(''tools'', JObj [(''rspack'', JFunc (RspackTarget [''es5'']))]),
              (''output'', JObj [(''overrideBrowserslist'',
                 transformSyntaxToBrowserslist env syntax)])]
      else
        JObj [(''tools'', JObj [(''rspack'', JFunc (RspackTarget [''es2022'']))]),
              (''output'', JObj [(''overrideBrowserslist'',
                 JArr (if target = JStr ''web'' then lastTargetVersionsWeb
                       else if target = JStr ''node'' then lastTargetVersionsNode
                       else lastTargetVersionsNode @ lastTargetVersionsWeb))])])"

subsection \<open>Entry\<close>

text \<open>
  \<open>Array.isArray(entry) ? entry : typeof entry === 'string' ? [entry] : null\<close>
\<close>

definition entryFilesOf :: "json \<Rightarrow> json list option" where
  "entryFilesOf entry =
     (case array_elements entry of
        Some xs \<Rightarrow> Some xs
      | None \<Rightarrow> (case entry of JStr s \<Rightarrow> Some [JStr s] | _ \<Rightarrow> None))"

text \<open>The inner loop over the files one key matched: \<open>resolvedEntries[entryFileName] = file\<close>.\<close>

definition addResolvedEntries ::
    "env \<Rightarrow> string \<Rightarrow> string list \<Rightarrow> (string \<times> json) list \<Rightarrow> (string \<times> json) list" where
  "addResolvedEntries env outBase files resolvedEntries =
     foldl (\<lambda>acc file.
        let (dir, name) = path_parse env (path_relative env outBase file)
        in AList.update (path_join env dir name) (JStr file) acc) resolvedEntries files"

text \<open>The loop over the entry keys in bundleless mode; a \<open>throw\<close> ends it.\<close>

fun resolveEntries ::
    "env \<Rightarrow> string \<Rightarrow> json \<Rightarrow> string list \<Rightarrow> (string \<times> json) list
      \<Rightarrow> error + (string \<times> json) list" where
  "resolveEntries env root entries [] resolvedEntries = Inr resolvedEntries"
| "resolveEntries env root entries (key # keys) resolvedEntries =
     (case entryFilesOf (getp entries key) of
        None \<Rightarrow> Inl (Error ''Entry can only be a string or an array of strings for now'')
      | Some entryFiles \<Rightarrow>
          (case glob env entryFiles root of
             Inl e \<Rightarrow> Inl e
           | Inr resolvedEntryFiles \<Rightarrow>
               if length resolvedEntryFiles = 0
               then Inl (Error (''Cannot find '' @ join_with '','' resolvedEntryFiles))
               else
                 let outBase = (case calcLongestCommonPath env resolvedEntryFiles of
                                  None \<Rightarrow> root | Some lcp \<Rightarrow> lcp)
                 in resolveEntries env root entries keys
                      (addResolvedEntries env outBase resolvedEntryFiles resolvedEntries)))"

definition composeEntryConfig :: "env \<Rightarrow> json \<Rightarrow> json \<Rightarrow> string \<Rightarrow> error + json" where
  "composeEntryConfig env entries bundle root =
     (if \<not> truthy entries then Inr (JObj [])
      else if bundle \<noteq> JBool False then
        Inr (JObj [(''source'', JObj [(''entry'', entries)])])
      else
        (case resolveEntries env root entries (object_keys entries) [] of
           Inl e \<Rightarrow> Inl e
         | Inr resolvedEntries \<Rightarrow>
             Inr (JObj [(''source'', JObj [(''entry'', JObj resolvedEntries)])])))"

subsection \<open>Bundle\<close>

definition composeBundleConfig :: "string \<Rightarrow> json \<Rightarrow> json" where
  "composeBundleConfig jsExtension bundle =
     (if truthy (default_to (JBool True) bundle) then JObj []
      else JObj [(''output'', JObj [(''externals'',
             JArr [JFunc (BundlelessRequest jsExtension)])])])"

subsection \<open>Declaration files\<close>

definition composeDtsConfig :: "json \<Rightarrow> string \<Rightarrow> json" where
  "composeDtsConfig libConfig dtsExtension =
     (let dts = getp libConfig ''dts'';
          bundle = getp libConfig ''bundle'';
          output = getp libConfig ''output'';
          autoExternal = getp libConfig ''autoExternal''
      in if dts = JBool False \<or> dts = JUndefined then JObj []
         else JObj [(''plugins'', JArr [JPluginDts (JObj [
                (''bundle'', coalesce (getp dts ''bundle'') bundle),
                (''distPath'',
                   coalesce (coalesce (getp dts ''distPath'')
                                      (getp (getp output ''distPath'') ''root''))
                            (JStr ''./dist'')),
                (''abortOnError'', coalesce (getp dts ''abortOnError'') (JBool True)),
                (''dtsExtension'', JStr dtsExtension),
                (''autoExternal'', autoExternal)])])])"

subsection \<open>Target\<close>

definition composeTargetConfig :: "env \<Rightarrow> json \<Rightarrow> error + json" where
  "composeTargetConfig env target0 =
     (let target = default_to (JStr ''web'') target0
      in if target = JStr ''web'' then
           Inr (JObj [(''tools'', JObj [(''rspack'', JObj [(''target'', JArr [JStr ''web''])])])])
         else if target = JStr ''node'' then
           Inr (JObj [
             (''tools'', JObj [(''rspack'', JObj [(''target'', JArr [JStr ''node''])])]),
             (''output'', JObj [(''externals'', nodeBuiltInModules env),
                               (''target'', JStr ''node'')])])
         else if target = JStr ''neutral'' then
           Inr (JObj [(''tools'', JObj [(''rspack'',
                  JObj [(''target'', JArr [JStr ''web'', JStr ''node''])])])])
         else Inl (Error (''Unsupported platform: '' @ js_string target)))"

section \<open>Composition of one library unit\<close>

text \<open>
  The fragments are computed in the order of the source, so the first \<open>throw\<close> decides
  the error, and merged in the order of the final call. The result carries the warnings
  logged up to the point where the function returned or threw.
\<close>

definition composeLibRsbuildConfig :: "env \<Rightarrow> json \<Rightarrow> json \<Rightarrow> string list \<times> (error + json)" where
  "composeLibRsbuildConfig env config configPath =
     (case configPath of
        JStr p \<Rightarrow>
          let rootPath = dirname env p;
              pkgJson = readPackageJson env rootPath
          in if nullish config then ([], Inl TypeError)
             else
               let format = getp config ''format'';
                   autoExtension = default_to (JBool True) (getp config ''autoExtension'');
                   autoExternal = default_to (JBool True) (getp config ''autoExternal'')
               in (case composeFormatConfig format of
                     Inl e \<Rightarrow> ([], Inl e)
                   | Inr formatConfig \<Rightarrow>
                  (case composeExternalsConfig format
                          (getp (getp config ''output'') ''externals'') of
                     Inl e \<Rightarrow> ([], Inl e)
                   | Inr externalsConfig \<Rightarrow>
                  (let (autoExtensionConfig, jsExtension, dtsExtension) =
                         composeAutoExtensionConfig config autoExtension pkgJson;
                       bundleConfig = composeBundleConfig jsExtension (getp config ''bundle'')
                   in (case composeTargetConfig env (getp (getp config ''output'') ''target'') of
                         Inl e \<Rightarrow> ([], Inl e)
                       | Inr targetConfig \<Rightarrow>
                      (let syntaxConfig =
                             composeSyntaxConfig env (getp (getp config ''output'') ''syntax'')
                               (getp (getp config ''output'') ''target'');
                           (warnings, autoExternalResult) =
                             composeAutoExternalConfig env autoExternal pkgJson
                               (getp (getp config ''output'') ''externals'')
                       in (case autoExternalResult of
                             Inl e \<Rightarrow> (warnings, Inl e)
                           | Inr autoExternalConfig \<Rightarrow>
                          (case composeEntryConfig env (getp (getp config ''source'') ''entry'')
                                  (getp config ''bundle'') (dirname env p) of
                             Inl e \<Rightarrow> (warnings, Inl e)
                           | Inr entryConfig \<Rightarrow>
                               let dtsConfig = composeDtsConfig config dtsExtension
                               in (warnings,
                                   Inr (mergeRsbuildConfig env
                                     [formatConfig, externalsConfig, autoExtensionConfig,
                                      autoExternalConfig, syntaxConfig, bundleConfig,
                                      targetConfig, entryConfig, dtsConfig])))))))))
      | _ \<Rightarrow> ([], Inl TypeError))"

section \<open>Composition of all library units\<close>

text \<open>
  The reset of the user's configuration before the final merge:
  \<^verbatim>\<open>userConfig.source ??= {}; userConfig.source.entry = {};\<close>
  \<^verbatim>\<open>userConfig.output ??= {}; delete userConfig.output.externals;\<close>
  The statements change the objects in place; here each returns the configuration after
  it. \<open>v.k ??= {}\<close> reads \<open>v.k\<close>, which throws on \<open>null\<close> and \<open>undefined\<close>, and assigns
  when what it read is null or undefined.
\<close>

definition ensure_object :: "json \<Rightarrow> string \<Rightarrow> error + json" where
  "ensure_object target k =
     (if nullish target then Inl TypeError
      else if nullish (getp target k) then set_prop target k (JObj [])
      else Inr target)"

definition resetUserConfig :: "json \<Rightarrow> error + json" where
  "resetUserConfig userConfig =
     (case ensure_object userConfig ''source'' of
        Inl e \<Rightarrow> Inl e
      | Inr config1 \<Rightarrow>
     (case set_prop (getp config1 ''source'') ''entry'' (JObj []) of
        Inl e \<Rightarrow> Inl e
      | Inr source \<Rightarrow>
     (case set_prop config1 ''source'' source of
        Inl e \<Rightarrow> Inl e
      | Inr config2 \<Rightarrow>
     (case ensure_object config2 ''output'' of
        Inl e \<Rightarrow> Inl e
      | Inr config3 \<Rightarrow>
          set_prop config3 ''output''
            (delete_prop (getp config3 ''output'') ''externals'')))))"

definition libOnlyKeys :: "string list" where
  "libOnlyKeys = [''bundle'', ''format'', ''autoExtension'', ''autoExternal'', ''syntax'', ''dts'']"

text \<open>
  The body of the callback mapped over \<open>lib\<close>: the warnings it logs, and the pair of
  the unit's format and its final configuration.
\<close>

definition composeUnit ::
    "env \<Rightarrow> json \<Rightarrow> json \<Rightarrow> json \<Rightarrow> string list \<times> (error + json \<times> json)" where
  "composeUnit env sharedRsbuildConfig configPath libConfig =
     (let userConfig = mergeRsbuildConfig env [sharedRsbuildConfig, libConfig];
          (warnings, composed) = composeLibRsbuildConfig env userConfig configPath
      in case composed of
           Inl e \<Rightarrow> (warnings, Inl e)
         | Inr libRsbuildConfig \<Rightarrow>
             (case resetUserConfig userConfig of
                Inl e \<Rightarrow> (warnings, Inl e)
              | Inr userConfig1 \<Rightarrow>
                  if nullish libConfig then (warnings, Inl TypeError)
                  else (warnings,
                        Inr (getp libConfig ''format'',
                             mergeRsbuildConfig env
                               [createInternalRsbuildConfig, libRsbuildConfig,
                                omitDeep env userConfig1 libOnlyKeys]))))"

text \<open>\<open>Promise.all\<close>: every result, or the first rejection.\<close>

fun collect :: "(error + 'a) list \<Rightarrow> error + 'a list" where
  "collect [] = Inr []"
| "collect (Inl e # rs) = Inl e"
| "collect (Inr x # rs) = (case collect rs of Inl e \<Rightarrow> Inl e | Inr xs \<Rightarrow> Inr (x # xs))"

text \<open>
  Every unit is started, so the warnings of all of them are logged. Which rejection
  \<open>Promise.all\<close> reports when several units fail, and how the warnings interleave, depends
  on the scheduling of the file system reads; the model takes the units in declaration
  order.
\<close>

definition composeCreateRsbuildConfig ::
    "env \<Rightarrow> json \<Rightarrow> json \<Rightarrow> string list \<times> (error + (json \<times> json) list)" where
  "composeCreateRsbuildConfig env rslibConfig path =
     (if nullish rslibConfig then ([], Inl TypeError)
      else
        let configPath = coalesce path (getp (getp rslibConfig ''_privateMeta'') ''configFilePath'');
            libConfigsArray = getp rslibConfig ''lib'';
            sharedRsbuildConfig = JObj (AList.delete ''lib'' (own_props rslibConfig))
        in if \<not> truthy libConfigsArray then
             ([], Inl (Error (''Expect lib field to be an array, but got ''
                              @ js_string libConfigsArray @ ''.'')))
           else
             (case array_elements libConfigsArray of
                Some libs \<Rightarrow>
                  let units = map (composeUnit env sharedRsbuildConfig configPath) libs
                  in (concat (map fst units), collect (map snd units))
              | None \<Rightarrow> ([], Inl TypeError)))"

section \<open>Assembly of the environments\<close>

text \<open>
  \<open>formatCount\<close> is a record keyed by the format, so the format is coerced to a string.
  \<open>formatIndex\<close> starts with the three formats; \<open>formatIndex[format]++\<close> on any other key
  reads \<open>undefined\<close>, yields \<open>NaN\<close> and stores \<open>NaN\<close>, which is \<open>None\<close> here.
\<close>

text \<open>The callback of the \<open>reduce\<close>: \<open>acc[format] = (acc[format] ?? 0) + 1\<close>.\<close>

definition countFormat :: "(string \<times> nat) list \<Rightarrow> json \<times> json \<Rightarrow> (string \<times> nat) list" where
  "countFormat acc unit =
     AList.update (js_string (fst unit))
       ((case map_of acc (js_string (fst unit)) of Some n \<Rightarrow> n | None \<Rightarrow> 0) + 1) acc"

definition formatCount :: "(json \<times> json) list \<Rightarrow> (string \<times> nat) list" where
  "formatCount rsbuildConfigObject = foldl countFormat [] rsbuildConfigObject"

definition initialFormatIndex :: "(string \<times> nat option) list" where
  "initialFormatIndex = [(''esm'', Some 0), (''cjs'', Some 0), (''umd'', Some 0)]"

definition lookupFormatIndex :: "(string \<times> nat option) list \<Rightarrow> string \<Rightarrow> nat option" where
  "lookupFormatIndex formatIndex format =
     (case map_of formatIndex format of Some i \<Rightarrow> i | None \<Rightarrow> None)"

definition environmentKey :: "nat option \<Rightarrow> string \<Rightarrow> nat option \<Rightarrow> string" where
  "environmentKey currentFormatCount format currentFormatIndex =
     (if currentFormatCount = Some 1 then format
      else format @ (case currentFormatIndex of Some i \<Rightarrow> decimal i | None \<Rightarrow> ''NaN''))"

text \<open>The loop over the composed units; its state is \<open>formatIndex\<close> and \<open>environments\<close>.\<close>

fun assignEnvironments ::
    "(string \<times> nat) list \<Rightarrow> (json \<times> json) list \<Rightarrow> (string \<times> nat option) list
      \<Rightarrow> (string \<times> json) list \<Rightarrow> (string \<times> json) list" where
  "assignEnvironments counts [] formatIndex environments = environments"
| "assignEnvironments counts ((format, config) # rest) formatIndex environments =
     (let currentFormatCount = map_of counts (js_string format);
          currentFormatIndex = lookupFormatIndex formatIndex (js_string format)
      in assignEnvironments counts rest
           (AList.update (js_string format) (map_option Suc currentFormatIndex) formatIndex)
           (AList.update
              (environmentKey currentFormatCount (js_string format) currentFormatIndex)
              config environments))"

definition assembleEnvironments :: "(json \<times> json) list \<Rightarrow> (string \<times> json) list" where
  "assembleEnvironments rsbuildConfigObject =
     assignEnvironments (formatCount rsbuildConfigObject) rsbuildConfigObject
       initialFormatIndex []"

text \<open>The result is the argument handed to \<open>createRsbuild\<close>.\<close>

definition initRsbuild :: "env \<Rightarrow> json \<Rightarrow> string list \<times> (error + json)" where
  "initRsbuild env rslibConfig =
     (case composeCreateRsbuildConfig env rslibConfig JUndefined of
        (warnings, Inl e) \<Rightarrow> (warnings, Inl e)
      | (warnings, Inr rsbuildConfigObject) \<Rightarrow>
          (warnings,
           Inr (JObj [(''rsbuildConfig'',
                  JObj [(''environments'', JObj (assembleEnvironments rsbuildConfigObject))])])))"

section \<open>Reading a computed fragment\<close>

text \<open>The exclusion rules a fragment carries at \<open>output.externals\<close>.\<close>

definition fragmentExternals :: "json \<Rightarrow> json list" where
  "fragmentExternals fragment =
     (case getp (getp fragment ''output'') ''externals'' of JArr rules \<Rightarrow> rules | _ \<Rightarrow> [])"

text \<open>
  The options the declaration plugin was created with, when the fragment holds exactly
  one plugin and it is the declaration plugin; \<open>None\<close> when it holds none.
\<close>

definition dtsPluginOptions :: "json \<Rightarrow> json option" where
  "dtsPluginOptions fragment =
     (case getp fragment ''plugins'' of
        JArr [JPluginDts options] \<Rightarrow> Some options
      | _ \<Rightarrow> None)"

text \<open>The names a manifest lists under one of its dependency lists.\<close>

definition dependencyNames :: "json \<Rightarrow> string \<Rightarrow> string list" where
  "dependencyNames pkgJson type =
     (if truthy (getp pkgJson type) then object_keys (getp pkgJson type) else [])"

section \<open>The environment keys as the specification words them\<close>

text \<open>
  The key of the unit at position \<open>i\<close> in the list of formats: the bare format when
  the format occurs exactly once in the list; otherwise the format followed by the
  number of earlier units of the same format, counted from zero in declaration order.
\<close>

definition specEnvironmentKey :: "string list \<Rightarrow> nat \<Rightarrow> string" where
  "specEnvironmentKey formats i =
     (if count_list formats (formats ! i) = 1 then formats ! i
      else formats ! i @ decimal (count_list (take i formats) (formats ! i)))"

section \<open>Regular expressions\<close>

text \<open>
  What \<open>new RegExp(source).test(input)\<close> computes, for the part of the pattern language
  that the generated exclusion patterns exercise: literal characters, \<open>.\<close>, the anchors
  \<open>^\<close> and \<open>$\<close>, identity escapes, and one level of groups with alternatives. A source
  outside this part (quantifiers, classes, nested groups, alternatives outside a group,
  escapes of letters and digits) or one that JavaScript rejects is \<open>None\<close>. No flag is
  set, so \<open>^\<close> holds at the start of the input only and \<open>$\<close> at its end only.
\<close>

datatype rx_token = TChar char | TAny | TStart | TEnd | TOpen | TClose | TBar

datatype rx_simple = SChar char | SAny | SStart | SEnd

datatype rx_atom = Simple rx_simple | Group "rx_simple list list"

definition wordChars :: string where
  "wordChars = ''abcdefghijklmnopqrstuvwxyzABCDEFGHIJKLMNOPQRSTUVWXYZ0123456789_''"

definition token_of :: "char \<Rightarrow> rx_token option" where
  "token_of c =
     (if c = CHR ''^'' then Some TStart
      else if c = CHR ''$'' then Some TEnd
      else if c = CHR ''.'' then Some TAny
      else if c = CHR ''('' then Some TOpen
      else if c = CHR '')'' then Some TClose
      else if c = CHR ''|'' then Some TBar
      else if c \<in> set ''*+?[]{}'' then None
      else Some (TChar c))"

fun rx_tokens :: "string \<Rightarrow> rx_token list option" where
  "rx_tokens [] = Some []"
| "rx_tokens [c] =
     (if c = backslash then None
      else case token_of c of None \<Rightarrow> None | Some t \<Rightarrow> Some [t])"
| "rx_tokens (c # d # cs) =
     (if c = backslash then
        (if d \<in> set wordChars then None else map_option (Cons (TChar d)) (rx_tokens cs))
      else case token_of c of
             None \<Rightarrow> None
           | Some t \<Rightarrow> map_option (Cons t) (rx_tokens (d # cs)))"

fun simple_of :: "rx_token \<Rightarrow> rx_simple option" where
  "simple_of (TChar c) = Some (SChar c)"
| "simple_of TAny = Some SAny"
| "simple_of TStart = Some SStart"
| "simple_of TEnd = Some SEnd"
| "simple_of _ = None"

text \<open>
  Outside a group, and inside one: the alternatives closed so far and the alternative
  being read, both in reverse.
\<close>

fun rx_parse :: "rx_token list \<Rightarrow> rx_atom list option"
  and rx_parse_group ::
    "rx_simple list list \<Rightarrow> rx_simple list \<Rightarrow> rx_token list \<Rightarrow> rx_atom list option" where
  "rx_parse [] = Some []"
| "rx_parse (t # ts) =
     (if t = TOpen then rx_parse_group [] [] ts
      else case simple_of t of
             None \<Rightarrow> None
           | Some a \<Rightarrow> map_option (Cons (Simple a)) (rx_parse ts))"
| "rx_parse_group alternatives current [] = None"
| "rx_parse_group alternatives current (t # ts) =
     (if t = TClose then
        map_option (Cons (Group (rev (rev current # alternatives)))) (rx_parse ts)
      else if t = TBar then rx_parse_group (rev current # alternatives) [] ts
      else case simple_of t of
             None \<Rightarrow> None
           | Some a \<Rightarrow> rx_parse_group alternatives (a # current) ts)"

text \<open>
  A sequence without groups consumes a fixed prefix of the input or fails. The flag says
  whether the position is the start of the input.
\<close>

fun match_simple :: "rx_simple list \<Rightarrow> bool \<Rightarrow> string \<Rightarrow> (bool \<times> string) option" where
  "match_simple [] atStart input = Some (atStart, input)"
| "match_simple (SChar c # rest) atStart input =
     (case input of [] \<Rightarrow> None
      | d # ds \<Rightarrow> if d = c then match_simple rest False ds else None)"
| "match_simple (SAny # rest) atStart input =
     (case input of [] \<Rightarrow> None
      | d # ds \<Rightarrow> if d = CHR 0x0A \<or> d = CHR 0x0D then None else match_simple rest False ds)"
| "match_simple (SStart # rest) atStart input =
     (if atStart then match_simple rest atStart input else None)"
| "match_simple (SEnd # rest) atStart input =
     (if input = [] then match_simple rest atStart input else None)"

fun rx_match :: "rx_atom list \<Rightarrow> bool \<Rightarrow> string \<Rightarrow> bool" where
  "rx_match [] atStart input = True"
| "rx_match (Simple a # rest) atStart input =
     (case match_simple [a] atStart input of
        None \<Rightarrow> False
      | Some (atStart1, input1) \<Rightarrow> rx_match rest atStart1 input1)"
| "rx_match (Group alternatives # rest) atStart input =
     list_ex (\<lambda>alternative.
        case match_simple alternative atStart input of
          None \<Rightarrow> False
        | Some (atStart1, input1) \<Rightarrow> rx_match rest atStart1 input1) alternatives"

text \<open>\<open>test\<close>: the pattern matches at some position of the input.\<close>

definition regexp_test :: "string \<Rightarrow> string \<Rightarrow> bool option" where
  "regexp_test source input =
     (case rx_tokens source of
        None \<Rightarrow> None
      | Some tokens \<Rightarrow>
          (case rx_parse tokens of
             None \<Rightarrow> None
           | Some atoms \<Rightarrow>
               Some (list_ex (\<lambda>i. rx_match atoms (i = 0) (drop i input))
                       [0..<Suc (length input)])))"

text \<open>
  A name none of whose characters the pattern language reads as an operator, and the
  inputs that are such a name followed by \<open>/\<close>, by a backslash, or by nothing.
\<close>

definition plainName :: "string \<Rightarrow> bool" where
  "plainName dep = list_all (\<lambda>c. c \<noteq> backslash \<and> token_of c = Some (TChar c)) dep"

definition subpathOf :: "string \<Rightarrow> string \<Rightarrow> bool" where
  "subpathOf dep input =
     (take (length dep) input = dep
      \<and> (case drop (length dep) input of
            [] \<Rightarrow> True
          | c # rest \<Rightarrow> c = CHR ''/'' \<or> c = backslash))"

section \<open>An example environment\<close>

text \<open>
  One instance of the parameters, for evaluating the model on concrete inputs. The merge
  is deep and the later configuration wins: objects are merged key by key, arrays are
  concatenated, \<open>undefined\<close> changes nothing. The omit removes the keys at every depth
  of the objects. The engine accepts the sources of the part of the pattern language
  modelled above and refuses every other source: what a JavaScript engine refuses, and
  the patterns the model does not cover. The manifest has two dependencies, one peer
  dependency and one development dependency, and the glob matches two files for the
  pattern \<open>src/*.ts\<close> and nothing otherwise.
\<close>

fun exampleMerge :: "json \<Rightarrow> json \<Rightarrow> json"
  and exampleMergeFields ::
    "(string \<times> json) list \<Rightarrow> (string \<times> json) list \<Rightarrow> (string \<times> json) list" where
  "exampleMerge (JObj xs) y =
     (case y of
        JUndefined \<Rightarrow> JObj xs
      | JObj ys \<Rightarrow> JObj (exampleMergeFields xs ys @ filter (\<lambda>kv. map_of xs (fst kv) = None) ys)
      | _ \<Rightarrow> y)"
| "exampleMerge (JArr xs) y =
     (case y of JUndefined \<Rightarrow> JArr xs | JArr ys \<Rightarrow> JArr (xs @ ys) | _ \<Rightarrow> JArr (xs @ [y]))"
| "exampleMerge x y =
     (if y = JUndefined then x
      else if x = JUndefined then y
      else case y of JArr ys \<Rightarrow> JArr (x # ys) | _ \<Rightarrow> y)"
| "exampleMergeFields [] ys = []"
| "exampleMergeFields ((k, v) # xs) ys =
     (k, case map_of ys k of None \<Rightarrow> v | Some w \<Rightarrow> exampleMerge v w)
       # exampleMergeFields xs ys"

fun exampleOmit :: "string list \<Rightarrow> json \<Rightarrow> json"
  and exampleOmitFields :: "string list \<Rightarrow> (string \<times> json) list \<Rightarrow> (string \<times> json) list" where
  "exampleOmit keys (JObj kvs) = JObj (exampleOmitFields keys kvs)"
| "exampleOmit keys v = v"
| "exampleOmitFields keys [] = []"
| "exampleOmitFields keys ((k, v) # kvs) =
     (if k \<in> set keys then exampleOmitFields keys kvs
      else (k, exampleOmit keys v) # exampleOmitFields keys kvs)"

definition exampleAccepts :: "string \<Rightarrow> bool" where
  "exampleAccepts source = (regexp_test source [] \<noteq> None)"

definition examplePkgJson :: json where
  "examplePkgJson = JObj [
     (''type'', JStr ''commonjs''),
     (''dependencies'', JObj [(''bar'', JStr ''^1.0.0''), (''react'', JStr ''^18.0.0'')]),
     (''peerDependencies'', JObj [(''typescript'', JStr ''^5'')]),
     (''devDependencies'', JObj [(''memfs'', JStr ''^4.11.1'')])]"

definition exampleEnv :: env where
  "exampleEnv = \<lparr>
     mergeRsbuildConfig = (\<lambda>configs. foldl exampleMerge (JObj []) configs),
     omitDeep = (\<lambda>v keys. exampleOmit keys v),
     isObject = (\<lambda>v. case v of JObj kvs \<Rightarrow> True | _ \<Rightarrow> False),
     readPackageJson = (\<lambda>root. examplePkgJson),
     calcLongestCommonPath = (\<lambda>files. None),
     transformSyntaxToBrowserslist = (\<lambda>syntax. JArr [syntax]),
     nodeBuiltInModules = JArr [JStr ''fs'', JStr ''path''],
     glob = (\<lambda>patterns root.
        if patterns = [JStr ''src/*.ts''] then Inr [''src/a.ts'', ''src/b.ts''] else Inr []),
     dirname = (\<lambda>p. ''/project''),
     path_relative = (\<lambda>base file. file),
     path_parse = (\<lambda>p. ([], p)),
     path_join = (\<lambda>dir name. dir @ name),
     regExpAccepts = exampleAccepts \<rparr>"

text \<open>The same environment over a project whose manifest cannot be read.\<close>

definition exampleEnvNoManifest :: env where
  "exampleEnvNoManifest = exampleEnv \<lparr> readPackageJson := (\<lambda>root. JUndefined) \<rparr>"

definition exampleUserExternals :: json where
  "exampleUserExternals = JObj [(''react'', JStr ''react-1'')]"

text \<open>
  A configuration with shared settings and two library units; the second unit names an
  external of its own and an output directory.
\<close>

definition exampleRslibConfig :: json where
  "exampleRslibConfig = JObj [
     (''lib'', JArr [
        JObj [(''format'', JStr ''esm'')],
        JObj [(''format'', JStr ''cjs''),
              (''output'', JObj [(''externals'', JArr [JStr ''lodash'']),
                                (''distPath'', JObj [(''root'', JStr ''./out'')])])]]),
     (''source'', JObj [(''entry'', JObj [(''index'', JStr ''src/index.ts'')])])]"

section \<open>Basic facts about property access\<close>

lemma getp_JObj: "getp (JObj kvs) k = (case map_of kvs k of Some x \<Rightarrow> x | None \<Rightarrow> JUndefined)"
  by (simp add: getp_def map_of_clearjunk)

lemma getp_not_object:
  "getp JUndefined k = JUndefined" "getp JNull k = JUndefined" "getp (JBool b) k = JUndefined"
  "getp (JNum i) k = JUndefined" "getp (JFunc f) k = JUndefined"
  "getp (JRegExp r) k = JUndefined" "getp (JPluginDts opts) k = JUndefined"
  by (simp_all add: getp_def)

lemma map_of_filter_absent:
  "map_of (filter (\<lambda>kv. map_of kvs (fst kv) = None) xs) k =
     (if map_of kvs k = None then map_of xs k else None)"
  by (induction xs) auto

lemma getp_JWithProps:
  "getp (JWithProps v kvs) k = (case map_of kvs k of Some x \<Rightarrow> x | None \<Rightarrow> getp v k)"
  by (simp add: getp_def map_of_append map_add_def map_of_clearjunk map_of_filter_absent
      split: option.splits)

lemma getp_set_prop:
  assumes "set_prop target k x = Inr result"
  shows "getp result j = (if j = k then x else getp target j)"
  using assms
  by (cases target)
     (auto simp: set_prop_def getp_JObj getp_JWithProps getp_not_object update_conv')

lemma getp_delete_prop_other: "j \<noteq> k \<Longrightarrow> getp (delete_prop v k) j = getp v j"
  by (induction v k rule: delete_prop.induct)
     (simp_all add: getp_JObj getp_JWithProps delete_conv' split: option.splits)

lemma map_of_foldl_update_other:
  "k \<notin> fst ` set kvs \<Longrightarrow>
     map_of (foldl (\<lambda>acc (k, x). AList.update k x acc) base kvs) k = map_of base k"
  by (induction kvs arbitrary: base) (auto simp: update_conv')

lemma map_of_foldl_update_distinct:
  "distinct (map fst kvs) \<Longrightarrow> map_of kvs k = Some v \<Longrightarrow>
     map_of (foldl (\<lambda>acc (k, x). AList.update k x acc) base kvs) k = Some v"
proof (induction kvs arbitrary: base)
  case Nil
  then show ?case by simp
next
  case (Cons kv kvs)
  show ?case
  proof (cases "fst kv = k")
    case True
    with Cons.prems have "k \<notin> fst ` set kvs" and "snd kv = v" by auto
    then show ?thesis
      using True by (cases kv) (simp add: map_of_foldl_update_other update_conv')
  next
    case False
    with Cons.prems have "distinct (map fst kvs)" and "map_of kvs k = Some v" by auto
    then show ?thesis
      using Cons.IH by (cases kv) simp
  qed
qed

lemma spread_object_binding:
  "map_of kvs k = Some v \<Longrightarrow> map_of (spread base (JObj kvs)) k = Some v"
  unfolding spread_def
  by (rule map_of_foldl_update_distinct) (simp_all add: map_of_clearjunk)

lemma spread_object_absent:
  "map_of kvs k = None \<Longrightarrow> map_of (spread base (JObj kvs)) k = map_of base k"
  unfolding spread_def
  by (rule map_of_foldl_update_other)
     (simp add: clearjunk_keys_set [simplified] map_of_eq_None_iff)

lemma spread_empty: "spread base (JObj []) = base"
  by (simp add: spread_def)

section \<open>Decimal rendering is injective\<close>

lemma digit_cases:
  assumes "(n::nat) < 10"
  shows "n \<in> {9, 8, 7, 6, 5, 4, 3, 2, 1, 0}"
proof -
  have "n = 9 \<or> n = 8 \<or> n \<le> 7" using assms by arith
  moreover have "n = 7 \<or> n = 6 \<or> n = 5 \<or> n \<le> 4" if "n \<le> 7" using that by arith
  moreover have "n = 4 \<or> n = 3 \<or> n = 2 \<or> n = 1 \<or> n = 0" if "n \<le> 4" using that by arith
  ultimately show ?thesis by blast
qed

lemma digit_values:
  "digit 0 = CHR ''0''" "digit 1 = CHR ''1''" "digit 2 = CHR ''2''" "digit 3 = CHR ''3''"
  "digit 4 = CHR ''4''" "digit 5 = CHR ''5''" "digit 6 = CHR ''6''" "digit 7 = CHR ''7''"
  "digit 8 = CHR ''8''" "digit 9 = CHR ''9''" "digit (Suc 0) = CHR ''1''"
  by (simp_all add: digit_def)

lemma of_char_digit:
  assumes "n < 10"
  shows "(of_char (digit n) :: nat) = 48 + n"
  using digit_cases [OF assms] by (auto simp: digit_values)

lemma digit_inj:
  assumes "n < 10" and "m < 10" and "digit n = digit m"
  shows "n = m"
proof -
  have "(of_char (digit n) :: nat) = of_char (digit m)"
    using assms(3) by (rule arg_cong)
  then have "48 + n = 48 + m"
    by (simp only: of_char_digit [OF assms(1)] of_char_digit [OF assms(2)])
  then show ?thesis by (simp only: add_left_cancel)
qed

lemma decimal_small: "n < 10 \<Longrightarrow> decimal n = [digit n]"
  by (subst decimal.simps) simp

lemma decimal_large: "10 \<le> n \<Longrightarrow> decimal n = decimal (n div 10) @ [digit (n mod 10)]"
  by (subst decimal.simps) simp

lemma decimal_not_Nil: "decimal n \<noteq> []"
  by (cases "n < 10") (simp_all add: decimal_small decimal_large)

lemma decimal_length_small: "n < 10 \<Longrightarrow> length (decimal n) = 1"
  by (simp add: decimal_small)

lemma decimal_length_large:
  assumes "10 \<le> n"
  shows "2 \<le> length (decimal n)"
proof -
  have "length (decimal n) = Suc (length (decimal (n div 10)))"
    using assms by (simp add: decimal_large)
  moreover have "length (decimal (n div 10)) \<noteq> 0"
    using decimal_not_Nil [of "n div 10"] by simp
  ultimately show ?thesis by arith
qed

lemma decimal_inj: "decimal n = decimal m \<Longrightarrow> n = m"
proof (induction n arbitrary: m rule: decimal.induct)
  case (1 n)
  have len: "length (decimal n) = length (decimal m)"
    using "1.prems" by (rule arg_cong)
  show ?case
  proof (cases "10 \<le> n")
    case False
    then have small: "n < 10" by simp
    show ?thesis
    proof (cases "10 \<le> m")
      case True
      from decimal_length_large [OF True] decimal_length_small [OF small] len
      show ?thesis by arith
    next
      case False
      then have "m < 10" by simp
      with small "1.prems" have "digit n = digit m"
        by (simp add: decimal_small)
      with small \<open>m < 10\<close> show ?thesis by (rule digit_inj)
    qed
  next
    case True
    show ?thesis
    proof (cases "10 \<le> m")
      case False
      then have "m < 10" by simp
      from decimal_length_large [OF True] decimal_length_small [OF this] len
      show ?thesis by arith
    next
      case large: True
      have "decimal (n div 10) @ [digit (n mod 10)] = decimal (m div 10) @ [digit (m mod 10)]"
        using "1.prems" by (simp only: decimal_large [OF True] decimal_large [OF large])
      then have q: "decimal (n div 10) = decimal (m div 10)"
        and r: "digit (n mod 10) = digit (m mod 10)"
        by simp_all
      from "1.IH" [OF True q] have d: "n div 10 = m div 10" .
      have "n mod 10 < 10" "m mod 10 < 10" by simp_all
      then have "n mod 10 = m mod 10" using r by (rule digit_inj)
      with d have "10 * (n div 10) + n mod 10 = 10 * (m div 10) + m mod 10"
        by (simp only:)
      then show ?thesis by (simp only: mult_div_mod_eq)
    qed
  qed
qed

lemma distinct_decimal_upt: "distinct (map decimal [0..<n])"
  by (simp add: distinct_map inj_on_def decimal_inj)

lemma distinct_own_props: "distinct (map fst (own_props v))"
proof (induction v rule: own_props.induct)
  case (4 v kvs)
  have "fst ` {kv \<in> set (own_props v). map_of kvs (fst kv) = None}
          \<inter> fst ` set (AList.clearjunk kvs) = {}"
    by (auto simp: clearjunk_keys_set [simplified] map_of_eq_None_iff)
  with 4 show ?case
    by (simp add: distinct_map_filter distinct_clearjunk)
qed (simp_all add: distinct_decimal_upt distinct_clearjunk)

lemma spread_binding:
  "map_of (own_props v) k = Some x \<Longrightarrow> map_of (spread base v) k = Some x"
  unfolding spread_def
  by (rule map_of_foldl_update_distinct) (simp_all add: distinct_own_props)

lemma spread_absent:
  "map_of (own_props v) k = None \<Longrightarrow> map_of (spread base v) k = map_of base k"
  unfolding spread_def
  by (rule map_of_foldl_update_other) (simp add: map_of_eq_None_iff)

lemma decimal_last: "last (decimal n) = digit (n mod 10)"
  by (cases "n < 10") (simp_all add: decimal_small decimal_large)

lemma decimal_not_externals: "decimal n \<noteq> ''externals''"
proof
  assume "decimal n = ''externals''"
  then have "last (decimal n) = CHR ''s''" by simp
  then have "digit (n mod 10) = CHR ''s''" by (simp only: decimal_last)
  then have "(of_char (digit (n mod 10)) :: nat) = of_char (CHR ''s'')" by (rule arg_cong)
  moreover have "(of_char (digit (n mod 10)) :: nat) = 48 + n mod 10"
    by (rule of_char_digit) simp
  ultimately show False by simp
qed

lemma index_props_not_externals:
  "map_of (zip (map decimal [0..<n]) xs) ''externals'' = None"
proof -
  have "''externals'' \<notin> set (map decimal [0..<n])"
  proof
    assume "''externals'' \<in> set (map decimal [0..<n])"
    then obtain k where "decimal k = ''externals''" by (auto simp del: upt.simps)
    with decimal_not_externals show False by blast
  qed
  then show ?thesis
    by (auto simp: map_of_eq_None_iff dest: set_zip_leftD simp del: upt.simps)
qed

section \<open>Auto-external: the rules computed\<close>

lemma set_unique: "set (unique xs) = set xs"
  by (simp add: unique_def)

lemma distinct_unique: "distinct (unique xs)"
  by (simp add: unique_def)

lemma subpathPattern_inject: "subpathPattern a = subpathPattern b \<longleftrightarrow> a = b"
  by (simp add: subpathPattern_def)

lemma subpathPattern_text:
  "subpathPattern dep = ''^'' @ dep @ ''($|'' @ [CHR 0x5C] @ ''/|'' @ [CHR 0x5C, CHR 0x5C] @ '')''"
  by (simp add: subpathPattern_def backslash_def)

text \<open>Which lists the options select, read off the value the user gave.\<close>

lemma selected_by_default:
  "truthy (getp (JObj (externalOptions (JBool True))) t)
     \<longleftrightarrow> t = ''dependencies'' \<or> t = ''peerDependencies''"
  by (auto simp: externalOptions_def spread_empty getp_JObj)

lemma selected_by_object:
  "getp (JObj (externalOptions (JObj selection))) t =
     (case map_of selection t of
        Some v \<Rightarrow> v
      | None \<Rightarrow> getp (JObj [(''dependencies'', JBool True), (''peerDependencies'', JBool True),
                             (''devDependencies'', JBool False)]) t)"
proof (cases "map_of selection t")
  case None
  then show ?thesis
    using spread_object_absent [OF None]
    by (simp add: externalOptions_def getp_JObj)
next
  case (Some v)
  then show ?thesis
    using spread_object_binding [OF Some]
    by (simp add: externalOptions_def getp_JObj)
qed

lemma userExternalKeys_iff:
  "n \<in> set (userExternalKeys env userExternals)
     \<longleftrightarrow> truthy userExternals \<and> isObject env userExternals
          \<and> n \<in> set (object_keys userExternals)"
  by (simp add: userExternalKeys_def)

lemma set_autoExternals:
  "set (autoExternals env autoExternal pkgJson userExternals) =
     {n. (\<exists>t \<in> set dependencyTypes.
            truthy (getp (JObj (externalOptions autoExternal)) t)
            \<and> n \<in> set (dependencyNames pkgJson t))
         \<and> n \<notin> set (userExternalKeys env userExternals)}"
  by (auto simp: autoExternals_def dependencyTypes_def dependencyNames_def)

lemma autoExternals_default:
  "n \<in> set (autoExternals env (JBool True) pkgJson userExternals)
     \<longleftrightarrow> (n \<in> set (dependencyNames pkgJson ''dependencies'')
          \<or> n \<in> set (dependencyNames pkgJson ''peerDependencies''))
         \<and> \<not> (truthy userExternals \<and> isObject env userExternals
                \<and> n \<in> set (object_keys userExternals))"
  by (auto simp: set_autoExternals dependencyTypes_def selected_by_default userExternalKeys_iff)

lemma autoExternals_selection:
  "n \<in> set (autoExternals env (JObj selection) pkgJson userExternals)
     \<longleftrightarrow> (\<exists>t \<in> set dependencyTypes.
            truthy (case map_of selection t of
                      Some v \<Rightarrow> v | None \<Rightarrow> JBool (t \<noteq> ''devDependencies''))
            \<and> n \<in> set (dependencyNames pkgJson t))
         \<and> \<not> (truthy userExternals \<and> isObject env userExternals
                \<and> n \<in> set (object_keys userExternals))"
proof -
  have selected: "getp (JObj (externalOptions (JObj selection))) t =
      (case map_of selection t of Some v \<Rightarrow> v | None \<Rightarrow> JBool (t \<noteq> ''devDependencies''))"
    if "t \<in> set dependencyTypes" for t
  proof (cases "map_of selection t")
    case None
    with that show ?thesis
      unfolding selected_by_object by (auto simp: getp_JObj dependencyTypes_def)
  next
    case (Some v)
    then show ?thesis by (simp add: selected_by_object)
  qed
  have "(\<exists>t \<in> set dependencyTypes.
           truthy (getp (JObj (externalOptions (JObj selection))) t)
           \<and> n \<in> set (dependencyNames pkgJson t))
      = (\<exists>t \<in> set dependencyTypes.
           truthy (case map_of selection t of
                     Some v \<Rightarrow> v | None \<Rightarrow> JBool (t \<noteq> ''devDependencies''))
           \<and> n \<in> set (dependencyNames pkgJson t))"
    by (rule bex_cong) (simp_all only: selected)
  then show ?thesis
    by (simp only: set_autoExternals userExternalKeys_iff mem_Collect_eq)
qed

text \<open>The lists that are not selected do not matter.\<close>

lemma autoExternals_cong:
  assumes "\<And>t. t \<in> set dependencyTypes \<Longrightarrow>
             truthy (getp (JObj (externalOptions autoExternal)) t) \<Longrightarrow>
             getp other t = getp pkgJson t"
  shows "autoExternals env autoExternal other userExternals
           = autoExternals env autoExternal pkgJson userExternals"
proof -
  let ?selected = "\<lambda>t. truthy (getp (JObj (externalOptions autoExternal)) t)"
  have same: "(if ?selected t then (if truthy (getp other t) then prev @ object_keys (getp other t)
                                    else prev) else prev)
            = (if ?selected t then (if truthy (getp pkgJson t)
                                    then prev @ object_keys (getp pkgJson t)
                                    else prev) else prev)"
    if "t \<in> set dependencyTypes" for t and prev :: "string list"
    using assms [OF that] by (cases "?selected t") simp_all
  have types: "''dependencies'' \<in> set dependencyTypes"
    "''peerDependencies'' \<in> set dependencyTypes" "''devDependencies'' \<in> set dependencyTypes"
    by (simp_all add: dependencyTypes_def)
  show ?thesis
    unfolding autoExternals_def dependencyTypes_def foldl_Cons foldl_Nil
    by (simp only: same [OF types(1)] same [OF types(2)] same [OF types(3)])
qed

lemma composeAutoExternal_cong:
  assumes "truthy other = truthy pkgJson"
    and "autoExternals env autoExternal other userExternals
           = autoExternals env autoExternal pkgJson userExternals"
  shows "composeAutoExternalConfig env autoExternal other userExternals
           = composeAutoExternalConfig env autoExternal pkgJson userExternals"
  using assms by (simp add: composeAutoExternalConfig_def)

text \<open>What the function returns once it has passed its two guards.\<close>

lemma find_Some_member: "find P xs = Some x \<Longrightarrow> x \<in> set xs \<and> P x"
  by (induction xs) (auto split: if_splits)

lemma composeAutoExternal_result:
  assumes "truthy autoExternal" and "truthy pkgJson"
  shows "snd (composeAutoExternalConfig env autoExternal pkgJson userExternals) =
     (case find (\<lambda>dep. \<not> regExpAccepts env (subpathPattern dep))
             (unique (autoExternals env autoExternal pkgJson userExternals)) of
        Some dep \<Rightarrow> Inl (SyntaxError (subpathPattern dep))
      | None \<Rightarrow>
          Inr (if autoExternals env autoExternal pkgJson userExternals \<noteq> []
               then JObj [(''output'', JObj [(''externals'',
                      JArr (map (\<lambda>dep. JRegExp (subpathPattern dep))
                              (unique (autoExternals env autoExternal pkgJson userExternals))
                            @ map JStr
                              (unique (autoExternals env autoExternal pkgJson userExternals))))])]
               else JObj []))"
proof (cases "autoExternals env autoExternal pkgJson userExternals = []")
  case True
  then show ?thesis
    using assms by (simp add: composeAutoExternalConfig_def unique_def)
next
  case False
  then show ?thesis
    using assms by (simp add: composeAutoExternalConfig_def Let_def split: option.splits)
qed

lemma autoExternal_fragment:
  assumes "truthy autoExternal" and "truthy pkgJson"
    and "snd (composeAutoExternalConfig env autoExternal pkgJson userExternals) = Inr fragment"
  shows "fragmentExternals fragment =
           map (\<lambda>dep. JRegExp (subpathPattern dep))
               (unique (autoExternals env autoExternal pkgJson userExternals))
           @ map JStr (unique (autoExternals env autoExternal pkgJson userExternals))"
    and "\<forall>n \<in> set (autoExternals env autoExternal pkgJson userExternals).
           regExpAccepts env (subpathPattern n)"
proof -
  let ?names = "autoExternals env autoExternal pkgJson userExternals"
  let ?refused = "\<lambda>dep. \<not> regExpAccepts env (subpathPattern dep)"
  from assms(3) have none: "find ?refused (unique ?names) = None"
    unfolding composeAutoExternal_result [OF assms(1,2)]
    by (cases "find ?refused (unique ?names)") simp_all
  then show "\<forall>n \<in> set ?names. regExpAccepts env (subpathPattern n)"
    by (simp add: find_None_iff set_unique)
  from assms(3) none have "fragment =
      (if ?names \<noteq> []
       then JObj [(''output'', JObj [(''externals'',
              JArr (map (\<lambda>dep. JRegExp (subpathPattern dep)) (unique ?names)
                    @ map JStr (unique ?names)))])]
       else JObj [])"
    unfolding composeAutoExternal_result [OF assms(1,2)] by simp
  then show "fragmentExternals fragment =
           map (\<lambda>dep. JRegExp (subpathPattern dep)) (unique ?names)
           @ map JStr (unique ?names)"
    by (cases "?names = []")
       (simp_all add: fragmentExternals_def getp_JObj getp_not_object unique_def)
qed

lemma autoExternal_error:
  assumes "truthy autoExternal" and "truthy pkgJson"
    and "snd (composeAutoExternalConfig env autoExternal pkgJson userExternals) = Inl e"
  shows "\<exists>d \<in> set (autoExternals env autoExternal pkgJson userExternals).
           e = SyntaxError (subpathPattern d) \<and> \<not> regExpAccepts env (subpathPattern d)"
proof -
  let ?names = "autoExternals env autoExternal pkgJson userExternals"
  let ?refused = "\<lambda>dep. \<not> regExpAccepts env (subpathPattern dep)"
  from assms(3) obtain d where d: "find ?refused (unique ?names) = Some d"
    and e: "e = SyntaxError (subpathPattern d)"
    unfolding composeAutoExternal_result [OF assms(1,2)]
    by (cases "find ?refused (unique ?names)") simp_all
  from find_Some_member [OF d] have "d \<in> set ?names" and "?refused d"
    by (simp_all add: set_unique)
  with e show ?thesis by blast
qed

lemma autoExternal_throws:
  assumes "truthy autoExternal" and "truthy pkgJson"
    and "n \<in> set (autoExternals env autoExternal pkgJson userExternals)"
    and "\<not> regExpAccepts env (subpathPattern n)"
  shows "\<exists>d. snd (composeAutoExternalConfig env autoExternal pkgJson userExternals)
               = Inl (SyntaxError (subpathPattern d))"
proof (cases "snd (composeAutoExternalConfig env autoExternal pkgJson userExternals)")
  case (Inl e)
  from autoExternal_error [OF assms(1,2) Inl] Inl show ?thesis by blast
next
  case (Inr fragment)
  from autoExternal_fragment(2) [OF assms(1,2) Inr] assms(3,4) show ?thesis by blast
qed

lemma exact_rule_iff:
  "JStr n \<in> set (map (\<lambda>dep. JRegExp (subpathPattern dep)) (unique xs) @ map JStr (unique xs))
     \<longleftrightarrow> n \<in> set xs"
  by (auto simp: set_unique)

lemma prefix_rule_iff:
  "JRegExp (subpathPattern n)
     \<in> set (map (\<lambda>dep. JRegExp (subpathPattern dep)) (unique xs) @ map JStr (unique xs))
     \<longleftrightarrow> n \<in> set xs"
  by (auto simp: set_unique subpathPattern_inject)

lemma distinct_rules:
  "distinct xs \<Longrightarrow> distinct (map (\<lambda>dep. JRegExp (subpathPattern dep)) xs @ map JStr xs)"
  by (auto simp: distinct_map inj_on_def subpathPattern_inject)

lemma exact_rule_present:
  assumes "truthy autoExternal" and "truthy pkgJson"
    and "snd (composeAutoExternalConfig env autoExternal pkgJson userExternals) = Inr fragment"
  shows "JStr n \<in> set (fragmentExternals fragment)
           \<longleftrightarrow> n \<in> set (autoExternals env autoExternal pkgJson userExternals)"
  unfolding autoExternal_fragment(1) [OF assms] by (rule exact_rule_iff)

lemma prefix_rule_present:
  assumes "truthy autoExternal" and "truthy pkgJson"
    and "snd (composeAutoExternalConfig env autoExternal pkgJson userExternals) = Inr fragment"
  shows "JRegExp (''^'' @ n @ ''($|'' @ [CHR 0x5C] @ ''/|'' @ [CHR 0x5C, CHR 0x5C] @ '')'')
           \<in> set (fragmentExternals fragment)
           \<longleftrightarrow> n \<in> set (autoExternals env autoExternal pkgJson userExternals)"
  unfolding autoExternal_fragment(1) [OF assms] subpathPattern_text [symmetric]
  by (rule prefix_rule_iff)

lemma rules_distinct:
  assumes "truthy autoExternal" and "truthy pkgJson"
    and "snd (composeAutoExternalConfig env autoExternal pkgJson userExternals) = Inr fragment"
  shows "distinct (fragmentExternals fragment)"
  unfolding autoExternal_fragment(1) [OF assms]
  by (rule distinct_rules) (rule distinct_unique)

text \<open>
  With auto-external enabled (\<open>true\<close>, or a selection object) and a manifest read,
  whenever the function returns: a name has an exact-name rule exactly when it is a key of
  a selected dependency list and not a key of the user's externals object; it has the
  prefix rule \<open>^name($|\/|\\)\<close> under exactly the same condition; when the user's externals
  are an object, none of its keys has either rule; no rule occurs twice. A list is
  selected by \<open>true\<close> when it is not \<open>devDependencies\<close>, and by a selection object when
  the object's value for it is truthy or, the object having none, when it is not
  \<open>devDependencies\<close>.
\<close>

theorem auto_external_rules:
  assumes "truthy pkgJson"
    and "autoExternal = JBool True \<or> autoExternal = JObj selection"
    and "snd (composeAutoExternalConfig env autoExternal pkgJson userExternals) = Inr fragment"
  shows "(JStr n \<in> set (fragmentExternals fragment)
            \<longleftrightarrow> (\<exists>t \<in> set [''dependencies'', ''peerDependencies'', ''devDependencies''].
                    (if autoExternal = JBool True then t \<noteq> ''devDependencies''
                     else truthy (case map_of selection t of
                                    Some v \<Rightarrow> v | None \<Rightarrow> JBool (t \<noteq> ''devDependencies'')))
                    \<and> n \<in> set (dependencyNames pkgJson t))
                 \<and> \<not> (truthy userExternals \<and> isObject env userExternals
                        \<and> n \<in> set (object_keys userExternals)))
       \<and> (JRegExp (''^'' @ n @ ''($|'' @ [CHR 0x5C] @ ''/|'' @ [CHR 0x5C, CHR 0x5C] @ '')'')
             \<in> set (fragmentExternals fragment)
            \<longleftrightarrow> (\<exists>t \<in> set [''dependencies'', ''peerDependencies'', ''devDependencies''].
                    (if autoExternal = JBool True then t \<noteq> ''devDependencies''
                     else truthy (case map_of selection t of
                                    Some v \<Rightarrow> v | None \<Rightarrow> JBool (t \<noteq> ''devDependencies'')))
                    \<and> n \<in> set (dependencyNames pkgJson t))
                 \<and> \<not> (truthy userExternals \<and> isObject env userExternals
                        \<and> n \<in> set (object_keys userExternals)))
       \<and> (truthy userExternals \<and> isObject env userExternals \<longrightarrow>
            (\<forall>k \<in> set (object_keys userExternals).
               JStr k \<notin> set (fragmentExternals fragment)
               \<and> JRegExp (''^'' @ k @ ''($|'' @ [CHR 0x5C] @ ''/|'' @ [CHR 0x5C, CHR 0x5C] @ '')'')
                    \<notin> set (fragmentExternals fragment)))
       \<and> distinct (fragmentExternals fragment)"
proof -
  have enabled: "truthy autoExternal"
    using assms(2) by auto
  note exact = exact_rule_present [OF enabled assms(1,3)]
  note prefix = prefix_rule_present [OF enabled assms(1,3)]
  have names: "m \<in> set (autoExternals env autoExternal pkgJson userExternals)
      \<longleftrightarrow> (\<exists>t \<in> set [''dependencies'', ''peerDependencies'', ''devDependencies''].
              (if autoExternal = JBool True then t \<noteq> ''devDependencies''
               else truthy (case map_of selection t of
                              Some v \<Rightarrow> v | None \<Rightarrow> JBool (t \<noteq> ''devDependencies'')))
              \<and> m \<in> set (dependencyNames pkgJson t))
          \<and> \<not> (truthy userExternals \<and> isObject env userExternals
                 \<and> m \<in> set (object_keys userExternals))" for m
  proof (cases "autoExternal = JBool True")
    case True
    then show ?thesis by (simp add: autoExternals_default)
  next
    case False
    with assms(2) have "autoExternal = JObj selection" by simp
    with False show ?thesis
      by (simp only: autoExternals_selection dependencyTypes_def if_False)
  qed
  have skipped: "k \<notin> set (autoExternals env autoExternal pkgJson userExternals)"
    if "truthy userExternals" "isObject env userExternals"
      "k \<in> set (object_keys userExternals)" for k
    using that by (simp add: names)
  show ?thesis
    unfolding exact prefix
    using names [of n] skipped rules_distinct [OF enabled assms(1,3)]
    by blast
qed

text \<open>
  The scenario of the spec: dependencies \<open>bar\<close> and \<open>react\<close>, the user's externals object
  already has the key \<open>react\<close>. \<open>bar\<close> gets both rules, \<open>react\<close> gets none.
\<close>

lemma example_names:
  "autoExternals exampleEnv (JBool True) examplePkgJson exampleUserExternals
     = [''bar'', ''typescript'']"
  by (simp add: autoExternals_def dependencyTypes_def externalOptions_def spread_empty getp_JObj
      examplePkgJson_def object_keys_def userExternalKeys_def exampleEnv_def
      exampleUserExternals_def)

lemma example_accepts:
  "exampleAccepts (subpathPattern ''bar'')" "exampleAccepts (subpathPattern ''typescript'')"
  "exampleAccepts (subpathPattern ''react'')" "exampleAccepts (subpathPattern ''memfs'')"
  by code_simp+

lemma example_fragment:
  "snd (composeAutoExternalConfig exampleEnv (JBool True) examplePkgJson exampleUserExternals)
     = Inr (JObj [(''output'', JObj [(''externals'',
         JArr [JRegExp (subpathPattern ''bar''), JRegExp (subpathPattern ''typescript''),
               JStr ''bar'', JStr ''typescript''])])])"
proof -
  have on: "truthy (JBool True)" and manifest: "truthy examplePkgJson"
    by (simp_all add: examplePkgJson_def)
  have engine: "regExpAccepts exampleEnv = exampleAccepts"
    by (simp add: exampleEnv_def)
  show ?thesis
    unfolding composeAutoExternal_result [OF on manifest] example_names engine
    by (simp add: unique_def example_accepts)
qed

theorem auto_external_rules_witness:
  "truthy examplePkgJson
   \<and> snd (composeAutoExternalConfig exampleEnv (JBool True) examplePkgJson exampleUserExternals)
       = Inr (JObj [(''output'', JObj [(''externals'',
           JArr [JRegExp (subpathPattern ''bar''), JRegExp (subpathPattern ''typescript''),
                 JStr ''bar'', JStr ''typescript''])])])
   \<and> truthy exampleUserExternals \<and> isObject exampleEnv exampleUserExternals
   \<and> ''react'' \<in> set (object_keys exampleUserExternals)
   \<and> JStr ''bar'' \<in> set (fragmentExternals (JObj [(''output'', JObj [(''externals'',
           JArr [JRegExp (subpathPattern ''bar''), JRegExp (subpathPattern ''typescript''),
                 JStr ''bar'', JStr ''typescript''])])]))
   \<and> JRegExp (''^bar($|'' @ [CHR 0x5C] @ ''/|'' @ [CHR 0x5C, CHR 0x5C] @ '')'')
       \<in> set (fragmentExternals (JObj [(''output'', JObj [(''externals'',
           JArr [JRegExp (subpathPattern ''bar''), JRegExp (subpathPattern ''typescript''),
                 JStr ''bar'', JStr ''typescript''])])]))
   \<and> JStr ''react'' \<notin> set (fragmentExternals (JObj [(''output'', JObj [(''externals'',
           JArr [JRegExp (subpathPattern ''bar''), JRegExp (subpathPattern ''typescript''),
                 JStr ''bar'', JStr ''typescript''])])]))
   \<and> JRegExp (''^react($|'' @ [CHR 0x5C] @ ''/|'' @ [CHR 0x5C, CHR 0x5C] @ '')'')
       \<notin> set (fragmentExternals (JObj [(''output'', JObj [(''externals'',
           JArr [JRegExp (subpathPattern ''bar''), JRegExp (subpathPattern ''typescript''),
                 JStr ''bar'', JStr ''typescript''])])]))"
proof -
  have p: "truthy examplePkgJson"
    by (simp add: examplePkgJson_def)
  have user: "truthy exampleUserExternals" "isObject exampleEnv exampleUserExternals"
    "''react'' \<in> set (object_keys exampleUserExternals)"
    by (simp_all add: exampleUserExternals_def exampleEnv_def object_keys_def)
  have bar: "''bar'' \<in> set (dependencyNames examplePkgJson ''dependencies'')"
    "''bar'' \<notin> set (object_keys exampleUserExternals)"
    by (simp_all add: dependencyNames_def examplePkgJson_def getp_JObj object_keys_def
        exampleUserExternals_def)
  show ?thesis
    using auto_external_rules [OF p _ example_fragment, of "[]" "''bar''"]
      auto_external_rules [OF p _ example_fragment, of "[]" "''react''"]
      p user bar example_fragment
    by simp
qed

text \<open>
  C5. The claim fails on a dependency whose name is not a pattern: the name goes into the
  source of the prefix rule as it is, the \<open>RegExp\<close> constructor refuses the source, and
  the function throws instead of producing the two rules. This holds for every selected
  name that the user's externals object does not hold, here for a name listed under
  \<open>dependencies\<close> with \<open>autoExternal\<close> set to \<open>true\<close>.
\<close>

theorem auto_external_refused_name:
  assumes "truthy pkgJson"
    and "name \<in> set (dependencyNames pkgJson ''dependencies'')"
    and "\<not> (truthy userExternals \<and> isObject env userExternals
            \<and> name \<in> set (object_keys userExternals))"
    and "\<not> regExpAccepts env
            (''^'' @ name @ ''($|'' @ [CHR 0x5C] @ ''/|'' @ [CHR 0x5C, CHR 0x5C] @ '')'')"
  shows "(\<exists>source. snd (composeAutoExternalConfig env (JBool True) pkgJson userExternals)
                     = Inl (SyntaxError source))
       \<and> (\<forall>fragment. snd (composeAutoExternalConfig env (JBool True) pkgJson userExternals)
                     \<noteq> Inr fragment)"
proof -
  have selected: "name \<in> set (autoExternals env (JBool True) pkgJson userExternals)"
    using assms(2,3) by (simp add: autoExternals_default)
  have refused: "\<not> regExpAccepts env (subpathPattern name)"
    using assms(4) unfolding subpathPattern_text .
  from autoExternal_throws [OF _ assms(1) selected refused] show ?thesis
    by auto
qed

text \<open>
  The manifest \<open>{ "dependencies": { "a(b": "1.0.0" } }\<close>: the source \<open>^a(b($|\/|\\)\<close> has a
  group that is never closed, and the composition of the fragment throws.
\<close>

theorem auto_external_refused_name_witness:
  "truthy (JObj [(''dependencies'', JObj [(''a(b'', JStr ''1.0.0'')])])
   \<and> ''a(b'' \<in> set (dependencyNames (JObj [(''dependencies'', JObj [(''a(b'', JStr ''1.0.0'')])])
                        ''dependencies'')
   \<and> \<not> regExpAccepts exampleEnv
         (''^a(b($|'' @ [CHR 0x5C] @ ''/|'' @ [CHR 0x5C, CHR 0x5C] @ '')'')
   \<and> (\<exists>source. snd (composeAutoExternalConfig exampleEnv (JBool True)
                      (JObj [(''dependencies'', JObj [(''a(b'', JStr ''1.0.0'')])]) JUndefined)
                 = Inl (SyntaxError source))"
proof -
  let ?pkgJson = "JObj [(''dependencies'', JObj [(''a(b'', JStr ''1.0.0'')])]"
  have p: "truthy ?pkgJson" by simp
  have listed: "''a(b'' \<in> set (dependencyNames ?pkgJson ''dependencies'')"
    by (simp add: dependencyNames_def getp_JObj object_keys_def)
  have user: "\<not> (truthy JUndefined \<and> isObject exampleEnv JUndefined
                  \<and> ''a(b'' \<in> set (object_keys JUndefined))"
    by simp
  have "\<not> exampleAccepts (''^a(b($|'' @ [CHR 0x5C] @ ''/|'' @ [CHR 0x5C, CHR 0x5C] @ '')'')"
    by code_simp
  then have refused: "\<not> regExpAccepts exampleEnv
      (''^'' @ ''a(b'' @ ''($|'' @ [CHR 0x5C] @ ''/|'' @ [CHR 0x5C, CHR 0x5C] @ '')'')"
    by (simp add: exampleEnv_def)
  from auto_external_refused_name [OF p listed user refused] p listed refused
  show ?thesis by simp
qed

text \<open>
  C10. With \<open>autoExternal\<close> exactly \<open>true\<close> the function consults \<open>dependencies\<close> and
  \<open>peerDependencies\<close> only: it returns the same, fragment or error, for any two manifests
  that agree on these two lists; when it returns a fragment, a name has the exact rule,
  and the prefix rule \<open>^name($|\/|\\)\<close>, exactly when one of the two lists holds it and the
  user's externals object does not; when it throws, it is for a name of these two lists
  whose pattern the engine refuses.
  A selection object whose \<open>devDependencies\<close> is absent or falsy leaves
  \<open>devDependencies\<close> unconsulted as well. A selection object whose \<open>devDependencies\<close> is
  truthy brings the names of \<open>devDependencies\<close> in: each gets both rules, and throws if
  its pattern is refused.
\<close>

theorem auto_external_default_lists:
  assumes "truthy pkgJson" and "truthy other"
    and "getp other ''dependencies'' = getp pkgJson ''dependencies''"
    and "getp other ''peerDependencies'' = getp pkgJson ''peerDependencies''"
  shows "composeAutoExternalConfig env (JBool True) other userExternals
           = composeAutoExternalConfig env (JBool True) pkgJson userExternals
       \<and> (\<forall>fragment.
            snd (composeAutoExternalConfig env (JBool True) pkgJson userExternals) = Inr fragment
            \<longrightarrow> (JStr n \<in> set (fragmentExternals fragment)
                   \<longleftrightarrow> (n \<in> set (dependencyNames pkgJson ''dependencies'')
                         \<or> n \<in> set (dependencyNames pkgJson ''peerDependencies''))
                        \<and> \<not> (truthy userExternals \<and> isObject env userExternals
                               \<and> n \<in> set (object_keys userExternals)))
               \<and> (JRegExp (''^'' @ n @ ''($|'' @ [CHR 0x5C] @ ''/|'' @ [CHR 0x5C, CHR 0x5C] @ '')'')
                     \<in> set (fragmentExternals fragment)
                   \<longleftrightarrow> (n \<in> set (dependencyNames pkgJson ''dependencies'')
                         \<or> n \<in> set (dependencyNames pkgJson ''peerDependencies''))
                        \<and> \<not> (truthy userExternals \<and> isObject env userExternals
                               \<and> n \<in> set (object_keys userExternals))))
       \<and> (\<forall>e. snd (composeAutoExternalConfig env (JBool True) pkgJson userExternals) = Inl e
            \<longrightarrow> (\<exists>d. (d \<in> set (dependencyNames pkgJson ''dependencies'')
                       \<or> d \<in> set (dependencyNames pkgJson ''peerDependencies''))
                     \<and> \<not> regExpAccepts env
                          (''^'' @ d @ ''($|'' @ [CHR 0x5C] @ ''/|'' @ [CHR 0x5C, CHR 0x5C] @ '')'')
                     \<and> e = SyntaxError
                          (''^'' @ d @ ''($|'' @ [CHR 0x5C] @ ''/|'' @ [CHR 0x5C, CHR 0x5C] @ '')'')))
       \<and> (\<not> truthy (getp (JObj selection) ''devDependencies'')
            \<longrightarrow> composeAutoExternalConfig env (JObj selection) other userExternals
                  = composeAutoExternalConfig env (JObj selection) pkgJson userExternals
               \<and> (\<forall>fragment.
                    snd (composeAutoExternalConfig env (JObj selection) pkgJson userExternals)
                      = Inr fragment
                    \<and> (JStr n \<in> set (fragmentExternals fragment)
                       \<or> JRegExp (''^'' @ n @ ''($|'' @ [CHR 0x5C] @ ''/|''
                                   @ [CHR 0x5C, CHR 0x5C] @ '')'')
                           \<in> set (fragmentExternals fragment))
                    \<longrightarrow> n \<in> set (dependencyNames pkgJson ''dependencies'')
                        \<or> n \<in> set (dependencyNames pkgJson ''peerDependencies'')))
       \<and> (truthy (getp (JObj selection) ''devDependencies'')
          \<and> n \<in> set (dependencyNames pkgJson ''devDependencies'')
          \<and> \<not> (truthy userExternals \<and> isObject env userExternals
                 \<and> n \<in> set (object_keys userExternals))
            \<longrightarrow> (\<forall>fragment.
                    snd (composeAutoExternalConfig env (JObj selection) pkgJson userExternals)
                      = Inr fragment
                    \<longrightarrow> JStr n \<in> set (fragmentExternals fragment)
                        \<and> JRegExp (''^'' @ n @ ''($|'' @ [CHR 0x5C] @ ''/|''
                                    @ [CHR 0x5C, CHR 0x5C] @ '')'')
                            \<in> set (fragmentExternals fragment))
               \<and> (\<not> regExpAccepts env
                      (''^'' @ n @ ''($|'' @ [CHR 0x5C] @ ''/|'' @ [CHR 0x5C, CHR 0x5C] @ '')'')
                    \<longrightarrow> (\<exists>source.
                          snd (composeAutoExternalConfig env (JObj selection) pkgJson userExternals)
                            = Inl (SyntaxError source))))"
proof -
  let ?skipped = "\<lambda>m. truthy userExternals \<and> isObject env userExternals
                        \<and> m \<in> set (object_keys userExternals)"
  have on: "truthy (JBool True)" "truthy (JObj selection)" by simp_all
  have same_truth: "truthy other = truthy pkgJson"
    using assms(1,2) by simp
  have agree: "getp other t = getp pkgJson t"
    if "t = ''dependencies'' \<or> t = ''peerDependencies''" for t
    using that assms(3,4) by auto
  \<comment> \<open>exactly true\<close>
  have "autoExternals env (JBool True) other userExternals
          = autoExternals env (JBool True) pkgJson userExternals"
    by (rule autoExternals_cong) (simp add: selected_by_default agree)
  with same_truth have first:
    "composeAutoExternalConfig env (JBool True) other userExternals
       = composeAutoExternalConfig env (JBool True) pkgJson userExternals"
    by (rule composeAutoExternal_cong)
  have second: "(JStr n \<in> set (fragmentExternals fragment)
                   \<longleftrightarrow> (n \<in> set (dependencyNames pkgJson ''dependencies'')
                         \<or> n \<in> set (dependencyNames pkgJson ''peerDependencies''))
                        \<and> \<not> ?skipped n)
               \<and> (JRegExp (''^'' @ n @ ''($|'' @ [CHR 0x5C] @ ''/|'' @ [CHR 0x5C, CHR 0x5C] @ '')'')
                     \<in> set (fragmentExternals fragment)
                   \<longleftrightarrow> (n \<in> set (dependencyNames pkgJson ''dependencies'')
                         \<or> n \<in> set (dependencyNames pkgJson ''peerDependencies''))
                        \<and> \<not> ?skipped n)"
    if "snd (composeAutoExternalConfig env (JBool True) pkgJson userExternals) = Inr fragment"
    for fragment
    unfolding exact_rule_present [OF on(1) assms(1) that]
      prefix_rule_present [OF on(1) assms(1) that] autoExternals_default
    by simp
  have third: "\<exists>d. (d \<in> set (dependencyNames pkgJson ''dependencies'')
                       \<or> d \<in> set (dependencyNames pkgJson ''peerDependencies''))
                     \<and> \<not> regExpAccepts env
                          (''^'' @ d @ ''($|'' @ [CHR 0x5C] @ ''/|'' @ [CHR 0x5C, CHR 0x5C] @ '')'')
                     \<and> e = SyntaxError
                          (''^'' @ d @ ''($|'' @ [CHR 0x5C] @ ''/|'' @ [CHR 0x5C, CHR 0x5C] @ '')'')"
    if "snd (composeAutoExternalConfig env (JBool True) pkgJson userExternals) = Inl e" for e
  proof -
    from autoExternal_error [OF on(1) assms(1) that] obtain d where
      "d \<in> set (autoExternals env (JBool True) pkgJson userExternals)"
      and "e = SyntaxError (subpathPattern d)"
      and "\<not> regExpAccepts env (subpathPattern d)"
      by blast
    then show ?thesis
      unfolding autoExternals_default subpathPattern_text by blast
  qed
  \<comment> \<open>a selection object that does not enable the development dependencies\<close>
  have off: "\<not> truthy (getp (JObj (externalOptions (JObj selection))) ''devDependencies'')"
    if "\<not> truthy (getp (JObj selection) ''devDependencies'')"
    using that unfolding selected_by_object by (simp add: getp_JObj split: option.splits)
  have fourth_a: "composeAutoExternalConfig env (JObj selection) other userExternals
                  = composeAutoExternalConfig env (JObj selection) pkgJson userExternals"
    if "\<not> truthy (getp (JObj selection) ''devDependencies'')"
  proof -
    have "autoExternals env (JObj selection) other userExternals
            = autoExternals env (JObj selection) pkgJson userExternals"
    proof (rule autoExternals_cong)
      fix t
      assume "t \<in> set dependencyTypes"
        and "truthy (getp (JObj (externalOptions (JObj selection))) t)"
      with off [OF that] have "t = ''dependencies'' \<or> t = ''peerDependencies''"
        by (auto simp: dependencyTypes_def)
      then show "getp other t = getp pkgJson t" by (rule agree)
    qed
    with same_truth show ?thesis by (rule composeAutoExternal_cong)
  qed
  have fourth_b: "n \<in> set (dependencyNames pkgJson ''dependencies'')
                        \<or> n \<in> set (dependencyNames pkgJson ''peerDependencies'')"
    if disabled: "\<not> truthy (getp (JObj selection) ''devDependencies'')"
      and fragment: "snd (composeAutoExternalConfig env (JObj selection) pkgJson userExternals)
                       = Inr fragment"
      and rule: "JStr n \<in> set (fragmentExternals fragment)
                 \<or> JRegExp (''^'' @ n @ ''($|'' @ [CHR 0x5C] @ ''/|''
                             @ [CHR 0x5C, CHR 0x5C] @ '')'')
                     \<in> set (fragmentExternals fragment)"
    for fragment
  proof -
    from rule have "n \<in> set (autoExternals env (JObj selection) pkgJson userExternals)"
      unfolding exact_rule_present [OF on(2) assms(1) fragment]
        prefix_rule_present [OF on(2) assms(1) fragment] by simp
    then obtain t where t: "t \<in> set dependencyTypes"
      "truthy (getp (JObj (externalOptions (JObj selection))) t)"
      "n \<in> set (dependencyNames pkgJson t)"
      unfolding set_autoExternals by blast
    with off [OF disabled] have "t = ''dependencies'' \<or> t = ''peerDependencies''"
      by (auto simp: dependencyTypes_def)
    with t(3) show ?thesis by auto
  qed
  \<comment> \<open>a selection object that enables them\<close>
  have listed: "n \<in> set (autoExternals env (JObj selection) pkgJson userExternals)"
    if "truthy (getp (JObj selection) ''devDependencies'')"
      and "n \<in> set (dependencyNames pkgJson ''devDependencies'')" and "\<not> ?skipped n"
  proof -
    have "truthy (getp (JObj (externalOptions (JObj selection))) ''devDependencies'')"
      using that(1) unfolding selected_by_object by (simp add: getp_JObj split: option.splits)
    with that(2,3) show ?thesis
      unfolding set_autoExternals userExternalKeys_iff
      by (auto simp: dependencyTypes_def)
  qed
  have fifth_a: "JStr n \<in> set (fragmentExternals fragment)
                 \<and> JRegExp (''^'' @ n @ ''($|'' @ [CHR 0x5C] @ ''/|''
                             @ [CHR 0x5C, CHR 0x5C] @ '')'')
                     \<in> set (fragmentExternals fragment)"
    if "truthy (getp (JObj selection) ''devDependencies'')"
      and "n \<in> set (dependencyNames pkgJson ''devDependencies'')" and "\<not> ?skipped n"
      and fragment: "snd (composeAutoExternalConfig env (JObj selection) pkgJson userExternals)
                       = Inr fragment"
    for fragment
    unfolding exact_rule_present [OF on(2) assms(1) fragment]
      prefix_rule_present [OF on(2) assms(1) fragment]
    using listed [OF that(1,2,3)] by simp
  have fifth_b: "\<exists>source.
        snd (composeAutoExternalConfig env (JObj selection) pkgJson userExternals)
          = Inl (SyntaxError source)"
    if "truthy (getp (JObj selection) ''devDependencies'')"
      and "n \<in> set (dependencyNames pkgJson ''devDependencies'')" and "\<not> ?skipped n"
      and "\<not> regExpAccepts env
              (''^'' @ n @ ''($|'' @ [CHR 0x5C] @ ''/|'' @ [CHR 0x5C, CHR 0x5C] @ '')'')"
  proof -
    from that(4) have "\<not> regExpAccepts env (subpathPattern n)"
      unfolding subpathPattern_text .
    from autoExternal_throws [OF on(2) assms(1) listed [OF that(1,2,3)] this]
    show ?thesis by blast
  qed
  from first second third fourth_a fourth_b fifth_a fifth_b show ?thesis
    by blast
qed

text \<open>
  On the example manifest: \<open>memfs\<close> is a development dependency only, \<open>typescript\<close> a
  peer dependency. \<open>true\<close> excludes \<open>typescript\<close> and not \<open>memfs\<close>, and returns the same
  for a manifest with other development dependencies, as does the selection
  \<open>{ peerDependencies: true }\<close>; the selection \<open>{ devDependencies: true }\<close> excludes
  \<open>memfs\<close>.
\<close>

lemma example_names_selection:
  "autoExternals exampleEnv (JObj [(''devDependencies'', JBool True)]) examplePkgJson
     exampleUserExternals = [''bar'', ''typescript'', ''memfs'']"
  by (simp add: autoExternals_def dependencyTypes_def externalOptions_def spread_def getp_JObj
      examplePkgJson_def object_keys_def userExternalKeys_def exampleEnv_def
      exampleUserExternals_def)

lemma example_fragment_selection:
  "snd (composeAutoExternalConfig exampleEnv (JObj [(''devDependencies'', JBool True)])
          examplePkgJson exampleUserExternals)
     = Inr (JObj [(''output'', JObj [(''externals'',
         JArr [JRegExp (subpathPattern ''bar''), JRegExp (subpathPattern ''typescript''),
               JRegExp (subpathPattern ''memfs''),
               JStr ''bar'', JStr ''typescript'', JStr ''memfs''])])])"
proof -
  have on: "truthy (JObj [(''devDependencies'', JBool True)])"
    and manifest: "truthy examplePkgJson"
    by (simp_all add: examplePkgJson_def)
  have engine: "regExpAccepts exampleEnv = exampleAccepts"
    by (simp add: exampleEnv_def)
  show ?thesis
    unfolding composeAutoExternal_result [OF on manifest] example_names_selection engine
    by (simp add: unique_def example_accepts)
qed

theorem auto_external_default_lists_witness:
  "truthy examplePkgJson
   \<and> truthy (JObj [(''dependencies'', getp examplePkgJson ''dependencies''),
                   (''peerDependencies'', getp examplePkgJson ''peerDependencies''),
                   (''devDependencies'', JObj [(''vitest'', JStr ''^2.0.0'')])])
   \<and> getp (JObj [(''dependencies'', getp examplePkgJson ''dependencies''),
                 (''peerDependencies'', getp examplePkgJson ''peerDependencies''),
                 (''devDependencies'', JObj [(''vitest'', JStr ''^2.0.0'')])]) ''dependencies''
       = getp examplePkgJson ''dependencies''
   \<and> getp (JObj [(''dependencies'', getp examplePkgJson ''dependencies''),
                 (''peerDependencies'', getp examplePkgJson ''peerDependencies''),
                 (''devDependencies'', JObj [(''vitest'', JStr ''^2.0.0'')])]) ''peerDependencies''
       = getp examplePkgJson ''peerDependencies''
   \<and> composeAutoExternalConfig exampleEnv (JBool True)
         (JObj [(''dependencies'', getp examplePkgJson ''dependencies''),
                (''peerDependencies'', getp examplePkgJson ''peerDependencies''),
                (''devDependencies'', JObj [(''vitest'', JStr ''^2.0.0'')])]) exampleUserExternals
       = composeAutoExternalConfig exampleEnv (JBool True) examplePkgJson exampleUserExternals
   \<and> snd (composeAutoExternalConfig exampleEnv (JBool True) examplePkgJson exampleUserExternals)
       = Inr (JObj [(''output'', JObj [(''externals'',
           JArr [JRegExp (subpathPattern ''bar''), JRegExp (subpathPattern ''typescript''),
                 JStr ''bar'', JStr ''typescript''])])])
   \<and> JStr ''typescript'' \<in> set (fragmentExternals (JObj [(''output'', JObj [(''externals'',
           JArr [JRegExp (subpathPattern ''bar''), JRegExp (subpathPattern ''typescript''),
                 JStr ''bar'', JStr ''typescript''])])]))
   \<and> JStr ''memfs'' \<notin> set (fragmentExternals (JObj [(''output'', JObj [(''externals'',
           JArr [JRegExp (subpathPattern ''bar''), JRegExp (subpathPattern ''typescript''),
                 JStr ''bar'', JStr ''typescript''])])]))
   \<and> \<not> truthy (getp (JObj [(''peerDependencies'', JBool True)]) ''devDependencies'')
   \<and> composeAutoExternalConfig exampleEnv (JObj [(''peerDependencies'', JBool True)])
         (JObj [(''dependencies'', getp examplePkgJson ''dependencies''),
                (''peerDependencies'', getp examplePkgJson ''peerDependencies''),
                (''devDependencies'', JObj [(''vitest'', JStr ''^2.0.0'')])]) exampleUserExternals
       = composeAutoExternalConfig exampleEnv (JObj [(''peerDependencies'', JBool True)])
           examplePkgJson exampleUserExternals
   \<and> truthy (getp (JObj [(''devDependencies'', JBool True)]) ''devDependencies'')
   \<and> ''memfs'' \<in> set (dependencyNames examplePkgJson ''devDependencies'')
   \<and> snd (composeAutoExternalConfig exampleEnv (JObj [(''devDependencies'', JBool True)])
            examplePkgJson exampleUserExternals)
       = Inr (JObj [(''output'', JObj [(''externals'',
           JArr [JRegExp (subpathPattern ''bar''), JRegExp (subpathPattern ''typescript''),
                 JRegExp (subpathPattern ''memfs''),
                 JStr ''bar'', JStr ''typescript'', JStr ''memfs''])])])
   \<and> JStr ''memfs'' \<in> set (fragmentExternals (JObj [(''output'', JObj [(''externals'',
           JArr [JRegExp (subpathPattern ''bar''), JRegExp (subpathPattern ''typescript''),
                 JRegExp (subpathPattern ''memfs''),
                 JStr ''bar'', JStr ''typescript'', JStr ''memfs''])])]))"
proof -
  let ?other = "JObj [(''dependencies'', getp examplePkgJson ''dependencies''),
                      (''peerDependencies'', getp examplePkgJson ''peerDependencies''),
                      (''devDependencies'', JObj [(''vitest'', JStr ''^2.0.0'')])]"
  have p: "truthy examplePkgJson"
    by (simp add: examplePkgJson_def)
  have o: "truthy ?other" by simp
  have d: "getp ?other ''dependencies'' = getp examplePkgJson ''dependencies''"
    and pe: "getp ?other ''peerDependencies'' = getp examplePkgJson ''peerDependencies''"
    by (simp_all add: getp_JObj)
  have names: "dependencyNames examplePkgJson ''dependencies'' = [''bar'', ''react'']"
    "dependencyNames examplePkgJson ''peerDependencies'' = [''typescript'']"
    "dependencyNames examplePkgJson ''devDependencies'' = [''memfs'']"
    by (simp_all add: dependencyNames_def examplePkgJson_def getp_JObj object_keys_def)
  have user: "object_keys exampleUserExternals = [''react'']"
    by (simp add: exampleUserExternals_def object_keys_def)
  have sel: "\<not> truthy (getp (JObj [(''peerDependencies'', JBool True)]) ''devDependencies'')"
    "truthy (getp (JObj [(''devDependencies'', JBool True)]) ''devDependencies'')"
    by (simp_all add: getp_JObj)
  show ?thesis
    using auto_external_default_lists [OF p o d pe, of exampleEnv exampleUserExternals
        "''typescript''" "[(''peerDependencies'', JBool True)]"]
      auto_external_default_lists [OF p o d pe, of exampleEnv exampleUserExternals
        "''memfs''" "[(''devDependencies'', JBool True)]"]
      p o d pe names user sel example_fragment example_fragment_selection
    by simp
qed

section \<open>Declaration emission\<close>

text \<open>
  C7, as stated, fails: a library unit that does not set \<open>dts\<close> at all has not disabled
  it, and the plugin is not created for it.
\<close>

theorem dts_absent_counterexample:
  "getp (JObj [(''format'', JStr ''esm'')]) ''dts'' \<noteq> JBool False
   \<and> dtsPluginOptions (composeDtsConfig (JObj [(''format'', JStr ''esm'')]) ''.d.ts'') = None
   \<and> composeDtsConfig (JObj [(''format'', JStr ''esm'')]) ''.d.ts'' = JObj []"
  by (simp add: composeDtsConfig_def dtsPluginOptions_def getp_JObj)

text \<open>
  C7, amended. The declaration plugin is created for a library unit if and only if its
  \<open>dts\<close> setting is present and not \<open>false\<close>. It then receives exactly the five options
  \<open>bundle\<close>, \<open>distPath\<close>, \<open>abortOnError\<close>, \<open>dtsExtension\<close> and \<open>autoExternal\<close>:
  \<open>dts.bundle\<close> or else the unit's \<open>bundle\<close>; \<open>dts.distPath\<close> or else
  \<open>output.distPath.root\<close> or else \<open>./dist\<close>; \<open>dts.abortOnError\<close> or else \<open>true\<close>; the
  computed declaration extension; and the unit's \<open>autoExternal\<close> as the user wrote it.
\<close>

theorem dts_plugin_invoked_iff:
  "(dtsPluginOptions (composeDtsConfig libConfig dtsExtension) \<noteq> None
      \<longleftrightarrow> getp libConfig ''dts'' \<noteq> JBool False \<and> getp libConfig ''dts'' \<noteq> JUndefined)
   \<and> (\<forall>options. dtsPluginOptions (composeDtsConfig libConfig dtsExtension) = Some options \<longrightarrow>
         object_keys options =
           [''bundle'', ''distPath'', ''abortOnError'', ''dtsExtension'', ''autoExternal'']
         \<and> getp options ''bundle'' =
             coalesce (getp (getp libConfig ''dts'') ''bundle'') (getp libConfig ''bundle'')
         \<and> getp options ''distPath'' =
             coalesce (coalesce (getp (getp libConfig ''dts'') ''distPath'')
                        (getp (getp (getp libConfig ''output'') ''distPath'') ''root''))
                      (JStr ''./dist'')
         \<and> getp options ''abortOnError'' =
             coalesce (getp (getp libConfig ''dts'') ''abortOnError'') (JBool True)
         \<and> getp options ''dtsExtension'' = JStr dtsExtension
         \<and> getp options ''autoExternal'' = getp libConfig ''autoExternal'')"
  by (auto simp: composeDtsConfig_def dtsPluginOptions_def getp_JObj Let_def object_keys_def)

text \<open>
  A unit with \<open>dts: { bundle: true }\<close> and \<open>output.distPath.root = ./out\<close>: the plugin is
  created and receives these values, with \<open>abortOnError\<close> defaulting to \<open>true\<close>.
\<close>

theorem dts_plugin_invoked_iff_witness:
  "dtsPluginOptions (composeDtsConfig
       (JObj [(''format'', JStr ''esm''), (''bundle'', JBool False),
              (''dts'', JObj [(''bundle'', JBool True)]),
              (''output'', JObj [(''distPath'', JObj [(''root'', JStr ''./out'')])])])
       ''.d.mts'')
     = Some (JObj [(''bundle'', JBool True), (''distPath'', JStr ''./out''),
                   (''abortOnError'', JBool True), (''dtsExtension'', JStr ''.d.mts''),
                   (''autoExternal'', JUndefined)])
   \<and> getp (JObj [(''bundle'', JBool True), (''distPath'', JStr ''./out''),
                   (''abortOnError'', JBool True), (''dtsExtension'', JStr ''.d.mts''),
                   (''autoExternal'', JUndefined)]) ''dtsExtension'' = JStr ''.d.mts''"
proof -
  have run: "dtsPluginOptions (composeDtsConfig
       (JObj [(''format'', JStr ''esm''), (''bundle'', JBool False),
              (''dts'', JObj [(''bundle'', JBool True)]),
              (''output'', JObj [(''distPath'', JObj [(''root'', JStr ''./out'')])])])
       ''.d.mts'')
     = Some (JObj [(''bundle'', JBool True), (''distPath'', JStr ''./out''),
                   (''abortOnError'', JBool True), (''dtsExtension'', JStr ''.d.mts''),
                   (''autoExternal'', JUndefined)])"
    by (simp add: composeDtsConfig_def dtsPluginOptions_def getp_JObj coalesce_def)
  show ?thesis
    using dts_plugin_invoked_iff [of
        "JObj [(''format'', JStr ''esm''), (''bundle'', JBool False),
              (''dts'', JObj [(''bundle'', JBool True)]),
              (''output'', JObj [(''distPath'', JObj [(''root'', JStr ''./out'')])])]"
        "''.d.mts''"] run
    by simp
qed

section \<open>Auto-extension\<close>

lemma autoExtension_extensions:
  "snd (composeAutoExtensionConfig config autoExtension pkgJson) =
     getDefaultExtension (getp config ''format'') pkgJson autoExtension"
  by (simp add: composeAutoExtensionConfig_def split: prod.splits)

lemma autoExtension_filename:
  "getp (getp (fst (composeAutoExtensionConfig config autoExtension pkgJson)) ''output'')
        ''filename'' =
     JObj (spread [(''js'', JStr (''[name]'' @
                      fst (snd (composeAutoExtensionConfig config autoExtension pkgJson))))]
             (getp (getp config ''output'') ''filename''))"
  by (simp add: composeAutoExtensionConfig_def getp_JObj split: prod.splits)

text \<open>
  C2. The extension pair computed for a library unit is the row of the decision table:
  esm in a commonjs package gives \<open>.mjs\<close> and \<open>.d.mts\<close>; esm in a module package or one
  without a type gives \<open>.js\<close> and \<open>.d.ts\<close>; cjs in a commonjs package gives \<open>.js\<close> and
  \<open>.d.ts\<close>; cjs in a module package gives \<open>.cjs\<close> and \<open>.d.cts\<close>; with auto-extension
  off, and for umd, the pair is \<open>.js\<close> and \<open>.d.ts\<close>. The fragment's \<open>output.filename.js\<close>
  is the user's own rule whenever the user's \<open>output.filename\<close> has one, whatever the
  table says, and \<open>[name]\<close> followed by the computed extension otherwise.
\<close>

theorem auto_extension_table:
  "(truthy autoExtension \<and> getp config ''format'' = JStr ''esm''
      \<and> getp pkgJson ''type'' = JStr ''commonjs''
      \<longrightarrow> snd (composeAutoExtensionConfig config autoExtension pkgJson) = (''.mjs'', ''.d.mts''))
   \<and> (truthy autoExtension \<and> getp config ''format'' = JStr ''esm''
      \<and> (getp pkgJson ''type'' = JStr ''module'' \<or> getp pkgJson ''type'' = JUndefined)
      \<longrightarrow> snd (composeAutoExtensionConfig config autoExtension pkgJson) = (''.js'', ''.d.ts''))
   \<and> (truthy autoExtension \<and> getp config ''format'' = JStr ''cjs''
      \<and> getp pkgJson ''type'' = JStr ''commonjs''
      \<longrightarrow> snd (composeAutoExtensionConfig config autoExtension pkgJson) = (''.js'', ''.d.ts''))
   \<and> (truthy autoExtension \<and> getp config ''format'' = JStr ''cjs''
      \<and> getp pkgJson ''type'' = JStr ''module''
      \<longrightarrow> snd (composeAutoExtensionConfig config autoExtension pkgJson) = (''.cjs'', ''.d.cts''))
   \<and> (\<not> truthy autoExtension
      \<longrightarrow> snd (composeAutoExtensionConfig config autoExtension pkgJson) = (''.js'', ''.d.ts''))
   \<and> (getp config ''format'' = JStr ''umd''
      \<longrightarrow> snd (composeAutoExtensionConfig config autoExtension pkgJson) = (''.js'', ''.d.ts''))
   \<and> (\<forall>rule. map_of (own_props (getp (getp config ''output'') ''filename'')) ''js'' = Some rule
      \<longrightarrow> getp (getp (getp (fst (composeAutoExtensionConfig config autoExtension pkgJson))
                  ''output'') ''filename'') ''js'' = rule)
   \<and> (map_of (own_props (getp (getp config ''output'') ''filename'')) ''js'' = None
      \<longrightarrow> getp (getp (getp (fst (composeAutoExtensionConfig config autoExtension pkgJson))
                  ''output'') ''filename'') ''js''
          = JStr (''[name]'' @ fst (snd (composeAutoExtensionConfig config autoExtension pkgJson))))"
proof -
  have user: "getp (JObj (spread base v)) ''js'' = rule"
    if "map_of (own_props v) ''js'' = Some rule" for base v rule
    using spread_binding [OF that, of base] by (simp add: getp_JObj)
  have dflt: "getp (JObj (spread [(''js'', d)] v)) ''js'' = d"
    if "map_of (own_props v) ''js'' = None" for d v
    using spread_absent [OF that, of "[(''js'', d)]"] by (simp add: getp_JObj)
  show ?thesis
    unfolding autoExtension_extensions autoExtension_filename
    by (auto simp: getDefaultExtension_def user dflt)
qed

text \<open>
  An esm unit in a commonjs package: the pair is \<open>.mjs\<close> and \<open>.d.mts\<close>, and the fragment
  names \<open>[name].mjs\<close>. The same unit with its own \<open>output.filename.js\<close>: the pair is
  unchanged and the fragment carries the user's rule.
\<close>

theorem auto_extension_table_witness:
  "truthy (JBool True)
   \<and> getp (JObj [(''format'', JStr ''esm'')]) ''format'' = JStr ''esm''
   \<and> getp examplePkgJson ''type'' = JStr ''commonjs''
   \<and> snd (composeAutoExtensionConfig (JObj [(''format'', JStr ''esm'')]) (JBool True)
            examplePkgJson) = (''.mjs'', ''.d.mts'')
   \<and> getp (getp (getp (fst (composeAutoExtensionConfig (JObj [(''format'', JStr ''esm'')])
           (JBool True) examplePkgJson)) ''output'') ''filename'') ''js'' = JStr ''[name].mjs''
   \<and> snd (composeAutoExtensionConfig (JObj [(''format'', JStr ''esm'')]) (JBool False)
            examplePkgJson) = (''.js'', ''.d.ts'')
   \<and> getp (getp (getp (fst (composeAutoExtensionConfig
           (JObj [(''format'', JStr ''esm''),
                  (''output'', JObj [(''filename'', JObj [(''js'', JStr ''[name].[hash].js'')])])])
           (JBool True) examplePkgJson)) ''output'') ''filename'') ''js''
       = JStr ''[name].[hash].js''"
proof -
  have a: "truthy (JBool True)" by simp
  have f: "getp (JObj [(''format'', JStr ''esm'')]) ''format'' = JStr ''esm''"
    by (simp add: getp_JObj)
  have t: "getp examplePkgJson ''type'' = JStr ''commonjs''"
    by (simp add: examplePkgJson_def getp_JObj)
  have none: "map_of (own_props (getp (getp (JObj [(''format'', JStr ''esm'')]) ''output'')
                ''filename'')) ''js'' = None"
    by (simp add: getp_JObj getp_not_object)
  have some: "map_of (own_props (getp (getp
       (JObj [(''format'', JStr ''esm''),
              (''output'', JObj [(''filename'', JObj [(''js'', JStr ''[name].[hash].js'')])])])
       ''output'') ''filename'')) ''js'' = Some (JStr ''[name].[hash].js'')"
    by (simp add: getp_JObj)
  show ?thesis
    using auto_extension_table [of "JBool True" "JObj [(''format'', JStr ''esm'')]" examplePkgJson]
      auto_extension_table [of "JBool False" "JObj [(''format'', JStr ''esm'')]" examplePkgJson]
      auto_extension_table [of "JBool True"
        "JObj [(''format'', JStr ''esm''),
              (''output'', JObj [(''filename'', JObj [(''js'', JStr ''[name].[hash].js'')])])]"
        examplePkgJson]
      a f t none some
    by simp
qed

section \<open>A manifest that cannot be read\<close>

lemma autoExternal_without_manifest:
  "composeAutoExternalConfig env autoExternal JUndefined userExternals =
     (if truthy autoExternal then [autoExternalWarning] else [], Inr (JObj []))"
  by (simp add: composeAutoExternalConfig_def)

lemma composeLib_without_manifest:
  assumes "readPackageJson env (dirname env p) = JUndefined"
    and "\<not> nullish config"
    and "composeFormatConfig (getp config ''format'') = Inr formatConfig"
    and "composeExternalsConfig (getp config ''format'')
           (getp (getp config ''output'') ''externals'') = Inr externalsConfig"
    and "composeTargetConfig env (getp (getp config ''output'') ''target'') = Inr targetConfig"
    and "composeEntryConfig env (getp (getp config ''source'') ''entry'')
           (getp config ''bundle'') (dirname env p) = Inr entryConfig"
  shows "composeLibRsbuildConfig env config (JStr p)
         = (if truthy (default_to (JBool True) (getp config ''autoExternal''))
            then [autoExternalWarning] else [],
            Inr (mergeRsbuildConfig env
              [formatConfig, externalsConfig,
               fst (composeAutoExtensionConfig config
                      (default_to (JBool True) (getp config ''autoExtension'')) JUndefined),
               JObj [],
               composeSyntaxConfig env (getp (getp config ''output'') ''syntax'')
                 (getp (getp config ''output'') ''target''),
               composeBundleConfig
                 (fst (snd (composeAutoExtensionConfig config
                      (default_to (JBool True) (getp config ''autoExtension'')) JUndefined)))
                 (getp config ''bundle''),
               targetConfig, entryConfig,
               composeDtsConfig config
                 (snd (snd (composeAutoExtensionConfig config
                      (default_to (JBool True) (getp config ''autoExtension'')) JUndefined)))]))"
  using assms
  by (simp add: composeLibRsbuildConfig_def autoExternal_without_manifest Let_def
      split: prod.splits)

text \<open>
  C8, as stated, fails: with auto-external switched off and no manifest, the unit is
  composed and the warning is not logged. The check of \<open>autoExternal\<close> comes before the
  check of the manifest.
\<close>

theorem manifest_absent_counterexample:
  "readPackageJson exampleEnvNoManifest (dirname exampleEnvNoManifest ''/project/rslib.config.ts'')
     = JUndefined
   \<and> composeAutoExternalConfig exampleEnvNoManifest (JBool False) JUndefined JUndefined
       = ([], Inr (JObj []))
   \<and> fst (composeLibRsbuildConfig exampleEnvNoManifest
             (JObj [(''format'', JStr ''cjs''), (''autoExternal'', JBool False)])
             (JStr ''/project/rslib.config.ts'')) = []
   \<and> autoExternalWarning \<notin> set (fst (composeLibRsbuildConfig exampleEnvNoManifest
             (JObj [(''format'', JStr ''cjs''), (''autoExternal'', JBool False)])
             (JStr ''/project/rslib.config.ts'')))"
proof -
  let ?config = "JObj [(''format'', JStr ''cjs''), (''autoExternal'', JBool False)]"
  have m: "readPackageJson exampleEnvNoManifest
             (dirname exampleEnvNoManifest ''/project/rslib.config.ts'') = JUndefined"
    by (simp add: exampleEnvNoManifest_def exampleEnv_def)
  have n: "\<not> nullish ?config" by simp
  obtain f where f: "composeFormatConfig (getp ?config ''format'') = Inr f"
    by (simp add: composeFormatConfig_def getp_JObj)
  obtain e where e: "composeExternalsConfig (getp ?config ''format'')
      (getp (getp ?config ''output'') ''externals'') = Inr e"
    by (simp add: composeExternalsConfig_def getp_JObj)
  obtain t where t: "composeTargetConfig exampleEnvNoManifest
      (getp (getp ?config ''output'') ''target'') = Inr t"
    by (simp add: composeTargetConfig_def getp_JObj getp_not_object default_to_def)
  obtain en where en: "composeEntryConfig exampleEnvNoManifest
      (getp (getp ?config ''source'') ''entry'') (getp ?config ''bundle'')
      (dirname exampleEnvNoManifest ''/project/rslib.config.ts'') = Inr en"
    by (simp add: composeEntryConfig_def getp_JObj getp_not_object)
  have off: "\<not> truthy (default_to (JBool True) (getp ?config ''autoExternal''))"
    by (simp add: getp_JObj default_to_def)
  show ?thesis
    using composeLib_without_manifest [OF m n f e t en] off m
    by (simp add: autoExternal_without_manifest)
qed

text \<open>
  C8, amended. When the manifest is absent or unparsable, the auto-external fragment is
  empty and its warning is logged exactly when auto-external is enabled (\<open>autoExternal\<close>,
  \<open>true\<close> by default, is truthy). The unit is still composed: whenever the fragments that
  can fail (format, externals, target, entry) are computed, the composition returns the
  merge of all nine fragments in their usual order, with the empty fragment in the place
  of auto-external.
\<close>

theorem manifest_absent_not_fatal:
  assumes "readPackageJson env (dirname env p) = JUndefined"
    and "\<not> nullish config"
    and "composeFormatConfig (getp config ''format'') = Inr formatConfig"
    and "composeExternalsConfig (getp config ''format'')
           (getp (getp config ''output'') ''externals'') = Inr externalsConfig"
    and "composeTargetConfig env (getp (getp config ''output'') ''target'') = Inr targetConfig"
    and "composeEntryConfig env (getp (getp config ''source'') ''entry'')
           (getp config ''bundle'') (dirname env p) = Inr entryConfig"
  shows "composeAutoExternalConfig env (default_to (JBool True) (getp config ''autoExternal''))
           JUndefined (getp (getp config ''output'') ''externals'')
         = (if truthy (default_to (JBool True) (getp config ''autoExternal''))
            then [autoExternalWarning] else [], Inr (JObj []))
       \<and> composeLibRsbuildConfig env config (JStr p)
         = (if truthy (default_to (JBool True) (getp config ''autoExternal''))
            then [autoExternalWarning] else [],
            Inr (mergeRsbuildConfig env
              [formatConfig, externalsConfig,
               fst (composeAutoExtensionConfig config
                      (default_to (JBool True) (getp config ''autoExtension'')) JUndefined),
               JObj [],
               composeSyntaxConfig env (getp (getp config ''output'') ''syntax'')
                 (getp (getp config ''output'') ''target''),
               composeBundleConfig
                 (fst (snd (composeAutoExtensionConfig config
                      (default_to (JBool True) (getp config ''autoExtension'')) JUndefined)))
                 (getp config ''bundle''),
               targetConfig, entryConfig,
               composeDtsConfig config
                 (snd (snd (composeAutoExtensionConfig config
                      (default_to (JBool True) (getp config ''autoExtension'')) JUndefined)))]))"
  using composeLib_without_manifest [OF assms]
  by (simp add: autoExternal_without_manifest)

text \<open>
  An esm unit with the defaults, in a project without a manifest: the warning is logged
  once and the unit is composed.
\<close>

theorem manifest_absent_not_fatal_witness:
  "readPackageJson exampleEnvNoManifest (dirname exampleEnvNoManifest ''/project/rslib.config.ts'')
     = JUndefined
   \<and> fst (composeLibRsbuildConfig exampleEnvNoManifest (JObj [(''format'', JStr ''esm'')])
             (JStr ''/project/rslib.config.ts'')) = [autoExternalWarning]
   \<and> \<not> isl (snd (composeLibRsbuildConfig exampleEnvNoManifest (JObj [(''format'', JStr ''esm'')])
             (JStr ''/project/rslib.config.ts'')))"
proof -
  let ?config = "JObj [(''format'', JStr ''esm'')]"
  have m: "readPackageJson exampleEnvNoManifest
             (dirname exampleEnvNoManifest ''/project/rslib.config.ts'') = JUndefined"
    by (simp add: exampleEnvNoManifest_def exampleEnv_def)
  have n: "\<not> nullish ?config" by simp
  obtain f where f: "composeFormatConfig (getp ?config ''format'') = Inr f"
    by (simp add: composeFormatConfig_def getp_JObj)
  obtain e where e: "composeExternalsConfig (getp ?config ''format'')
      (getp (getp ?config ''output'') ''externals'') = Inr e"
    by (simp add: composeExternalsConfig_def getp_JObj)
  obtain t where t: "composeTargetConfig exampleEnvNoManifest
      (getp (getp ?config ''output'') ''target'') = Inr t"
    by (simp add: composeTargetConfig_def getp_JObj getp_not_object default_to_def)
  obtain en where en: "composeEntryConfig exampleEnvNoManifest
      (getp (getp ?config ''source'') ''entry'') (getp ?config ''bundle'')
      (dirname exampleEnvNoManifest ''/project/rslib.config.ts'') = Inr en"
    by (simp add: composeEntryConfig_def getp_JObj getp_not_object)
  have on: "truthy (default_to (JBool True) (getp ?config ''autoExternal''))"
    by (simp add: getp_JObj default_to_def)
  show ?thesis
    using manifest_absent_not_fatal [OF m n f e t en] on m
    by simp
qed

section \<open>The reset of the user's configuration\<close>

lemma getp_nullish: "nullish v \<Longrightarrow> getp v k = JUndefined"
  by (cases v) (simp_all add: getp_not_object)

lemma getp_delete_externals: "getp (delete_prop v ''externals'') ''externals'' = JUndefined"
  by (induction v "''externals''" rule: delete_prop.induct)
     (simp_all add: getp_JObj getp_JWithProps getp_not_object delete_conv'
        getp_def [of "JArr xs" for xs] getp_def [of "JStr s" for s]
        index_props_not_externals del: upt.simps)

lemma getp_ensure_object:
  assumes "ensure_object target k = Inr result"
  shows "getp result j = (if j = k \<and> nullish (getp target k) then JObj [] else getp target j)"
  using assms getp_set_prop [of target k "JObj []" result j]
  by (auto simp: ensure_object_def split: if_splits)

text \<open>
  After the reset the configuration has an empty \<open>source.entry\<close> and no
  \<open>output.externals\<close>, and is otherwise what it was: every other top-level setting, every
  other setting under \<open>source\<close> and every other setting under \<open>output\<close> is unchanged.
\<close>

lemma resetUserConfig_frame:
  assumes "resetUserConfig userConfig = Inr userConfig1"
  shows "getp (getp userConfig1 ''source'') ''entry'' = JObj []"
    and "getp (getp userConfig1 ''output'') ''externals'' = JUndefined"
    and "\<forall>k. k \<noteq> ''source'' \<and> k \<noteq> ''output'' \<longrightarrow> getp userConfig1 k = getp userConfig k"
    and "\<forall>k. k \<noteq> ''entry'' \<longrightarrow>
           getp (getp userConfig1 ''source'') k = getp (getp userConfig ''source'') k"
    and "\<forall>k. k \<noteq> ''externals'' \<longrightarrow>
           getp (getp userConfig1 ''output'') k = getp (getp userConfig ''output'') k"
proof -
  from assms obtain config1 source config2 config3 where
    c1: "ensure_object userConfig ''source'' = Inr config1"
    and s: "set_prop (getp config1 ''source'') ''entry'' (JObj []) = Inr source"
    and c2: "set_prop config1 ''source'' source = Inr config2"
    and c3: "ensure_object config2 ''output'' = Inr config3"
    and r: "set_prop config3 ''output'' (delete_prop (getp config3 ''output'') ''externals'')
              = Inr userConfig1"
    by (auto simp: resetUserConfig_def split: sum.splits)
  note g1 = getp_ensure_object [OF c1]
  note gs = getp_set_prop [OF s]
  note g2 = getp_set_prop [OF c2]
  note g3 = getp_ensure_object [OF c3]
  note gr = getp_set_prop [OF r]
  have source1: "getp userConfig1 ''source'' = source"
    by (simp add: gr g3 g2)
  have output1: "getp userConfig1 ''output''
                   = delete_prop (getp config3 ''output'') ''externals''"
    by (simp add: gr)
  have output3: "getp config3 ''output'' =
      (if nullish (getp userConfig ''output'') then JObj [] else getp userConfig ''output'')"
    by (simp add: g3 g2 g1)
  show "getp (getp userConfig1 ''source'') ''entry'' = JObj []"
    by (simp add: source1 gs)
  show "getp (getp userConfig1 ''output'') ''externals'' = JUndefined"
    by (simp only: output1 getp_delete_externals)
  show "\<forall>k. k \<noteq> ''source'' \<and> k \<noteq> ''output'' \<longrightarrow> getp userConfig1 k = getp userConfig k"
    by (simp add: gr g3 g2 g1)
  show "\<forall>k. k \<noteq> ''entry'' \<longrightarrow>
           getp (getp userConfig1 ''source'') k = getp (getp userConfig ''source'') k"
    by (simp add: source1 gs g1 getp_nullish getp_JObj)
  show "\<forall>k. k \<noteq> ''externals'' \<longrightarrow>
           getp (getp userConfig1 ''output'') k = getp (getp userConfig ''output'') k"
    by (simp add: output1 output3 getp_delete_prop_other getp_nullish getp_JObj)
qed

text \<open>
  The reset throws only where JavaScript does: on a configuration that is \<open>null\<close>,
  \<open>undefined\<close> or a primitive value, and on a \<open>source\<close> that is a primitive value. An
  array or a closure at \<open>source\<close> takes the property.
\<close>

lemma set_prop_returns:
  assumes "(\<exists>kvs. target = JObj kvs) \<or> (\<exists>v kvs. target = JWithProps v kvs)"
  shows "\<exists>result. set_prop target k x = Inr result
           \<and> ((\<exists>kvs. result = JObj kvs) \<or> (\<exists>v kvs. result = JWithProps v kvs))"
  using assms by (auto simp: set_prop_def)

lemma ensure_object_returns:
  assumes "(\<exists>kvs. target = JObj kvs) \<or> (\<exists>v kvs. target = JWithProps v kvs)"
  shows "\<exists>result. ensure_object target k = Inr result
           \<and> ((\<exists>kvs. result = JObj kvs) \<or> (\<exists>v kvs. result = JWithProps v kvs))"
proof (cases "nullish (getp target k)")
  case True
  with set_prop_returns [OF assms, of k "JObj []"] assms show ?thesis
    by (auto simp: ensure_object_def)
next
  case False
  with assms show ?thesis
    by (auto simp: ensure_object_def)
qed

lemma resetUserConfig_returns:
  assumes "(\<exists>kvs. userConfig = JObj kvs) \<or> (\<exists>v kvs. userConfig = JWithProps v kvs)"
    and "\<forall>b. getp userConfig ''source'' \<noteq> JBool b"
    and "\<forall>i. getp userConfig ''source'' \<noteq> JNum i"
    and "\<forall>s. getp userConfig ''source'' \<noteq> JStr s"
  shows "\<exists>userConfig1. resetUserConfig userConfig = Inr userConfig1"
proof -
  from ensure_object_returns [OF assms(1)] obtain config1 where
    c1: "ensure_object userConfig ''source'' = Inr config1"
    and object1: "(\<exists>kvs. config1 = JObj kvs) \<or> (\<exists>v kvs. config1 = JWithProps v kvs)"
    by blast
  have "getp config1 ''source'' =
      (if nullish (getp userConfig ''source'') then JObj [] else getp userConfig ''source'')"
    by (simp add: getp_ensure_object [OF c1])
  then obtain source where s: "set_prop (getp config1 ''source'') ''entry'' (JObj []) = Inr source"
    using assms(2,3,4)
    by (cases "getp userConfig ''source''") (auto simp: set_prop_def)
  from set_prop_returns [OF object1] obtain config2 where
    c2: "set_prop config1 ''source'' source = Inr config2"
    and object2: "(\<exists>kvs. config2 = JObj kvs) \<or> (\<exists>v kvs. config2 = JWithProps v kvs)"
    by blast
  from ensure_object_returns [OF object2] obtain config3 where
    c3: "ensure_object config2 ''output'' = Inr config3"
    and object3: "(\<exists>kvs. config3 = JObj kvs) \<or> (\<exists>v kvs. config3 = JWithProps v kvs)"
    by blast
  from set_prop_returns [OF object3] obtain result where
    "set_prop config3 ''output'' (delete_prop (getp config3 ''output'') ''externals'') = Inr result"
    by blast
  with c1 s c2 c3 show ?thesis
    by (simp add: resetUserConfig_def)
qed

text \<open>An array at \<open>source\<close>: the reset returns, and the array carries the property.\<close>

lemma resetUserConfig_array_source:
  "resetUserConfig (JObj [(''source'', JArr [JStr ''a''])])
     = Inr (JObj [(''source'', JWithProps (JArr [JStr ''a'']) [(''entry'', JObj [])]),
                  (''output'', JObj [])])"
  by (simp add: resetUserConfig_def ensure_object_def set_prop_def getp_JObj getp_JWithProps
      getp_not_object)

lemma resetUserConfig_primitive_source:
  "resetUserConfig (JObj [(''source'', JStr ''src'')]) = Inl TypeError"
  by (simp add: resetUserConfig_def ensure_object_def set_prop_def getp_JObj)

section \<open>The order of the merge\<close>

lemma collect_Inr:
  "collect rs = Inr xs \<Longrightarrow> length xs = length rs \<and> (\<forall>i < length rs. rs ! i = Inr (xs ! i))"
proof (induction rs arbitrary: xs)
  case Nil
  then show ?case by simp
next
  case (Cons r rs)
  show ?case
  proof (cases r)
    case (Inl e)
    with Cons.prems show ?thesis by simp
  next
    case (Inr x)
    with Cons.prems obtain ys where ys: "collect rs = Inr ys" and xs: "xs = x # ys"
      by (auto split: sum.splits)
    from Cons.IH [OF ys] have "length ys = length rs"
      and nth: "\<And>i. i < length rs \<Longrightarrow> rs ! i = Inr (ys ! i)"
      by simp_all
    then show ?thesis
      using Inr xs by (auto simp: nth_Cons split: nat.splits)
  qed
qed

lemma composeCreate_success:
  assumes "composeCreateRsbuildConfig env rslibConfig path = (warnings, Inr composed)"
  shows "\<exists>libs. array_elements (getp rslibConfig ''lib'') = Some libs
           \<and> collect (map (\<lambda>libConfig. snd (composeUnit env
                  (JObj (AList.delete ''lib'' (own_props rslibConfig)))
                  (coalesce path (getp (getp rslibConfig ''_privateMeta'') ''configFilePath''))
                  libConfig)) libs) = Inr composed"
  using assms
  by (auto simp: composeCreateRsbuildConfig_def Let_def comp_def
      split: if_splits option.splits)

lemma composeUnit_success:
  assumes "snd (composeUnit env sharedRsbuildConfig configPath libConfig) = Inr unit"
  shows "\<exists>w libRsbuildConfig userConfig1.
           composeLibRsbuildConfig env (mergeRsbuildConfig env [sharedRsbuildConfig, libConfig])
             configPath = (w, Inr libRsbuildConfig)
         \<and> resetUserConfig (mergeRsbuildConfig env [sharedRsbuildConfig, libConfig])
             = Inr userConfig1
         \<and> unit = (getp libConfig ''format'',
                    mergeRsbuildConfig env [createInternalRsbuildConfig, libRsbuildConfig,
                                            omitDeep env userConfig1 libOnlyKeys])"
  using assms
  by (auto simp: composeUnit_def Let_def split: prod.splits sum.splits if_splits)

lemma composeLib_success:
  assumes "composeLibRsbuildConfig env config configPath = (w, Inr libRsbuildConfig)"
  shows "\<exists>p formatConfig externalsConfig autoExternalConfig targetConfig entryConfig.
           configPath = JStr p
         \<and> composeFormatConfig (getp config ''format'') = Inr formatConfig
         \<and> composeExternalsConfig (getp config ''format'')
              (getp (getp config ''output'') ''externals'') = Inr externalsConfig
         \<and> snd (composeAutoExternalConfig env
                   (default_to (JBool True) (getp config ''autoExternal''))
                   (readPackageJson env (dirname env p))
                   (getp (getp config ''output'') ''externals'')) = Inr autoExternalConfig
         \<and> composeTargetConfig env (getp (getp config ''output'') ''target'') = Inr targetConfig
         \<and> composeEntryConfig env (getp (getp config ''source'') ''entry'')
              (getp config ''bundle'') (dirname env p) = Inr entryConfig
         \<and> libRsbuildConfig = mergeRsbuildConfig env
              [formatConfig, externalsConfig,
               fst (composeAutoExtensionConfig config
                      (default_to (JBool True) (getp config ''autoExtension''))
                      (readPackageJson env (dirname env p))),
               autoExternalConfig,
               composeSyntaxConfig env (getp (getp config ''output'') ''syntax'')
                 (getp (getp config ''output'') ''target''),
               composeBundleConfig
                 (fst (snd (composeAutoExtensionConfig config
                      (default_to (JBool True) (getp config ''autoExtension''))
                      (readPackageJson env (dirname env p)))))
                 (getp config ''bundle''),
               targetConfig, entryConfig,
               composeDtsConfig config
                 (snd (snd (composeAutoExtensionConfig config
                      (default_to (JBool True) (getp config ''autoExtension''))
                      (readPackageJson env (dirname env p)))))]"
proof (cases configPath)
  case (JStr p)
  show ?thesis
    using assms unfolding JStr composeLibRsbuildConfig_def
    by (auto simp: Let_def split: prod.splits sum.splits if_splits)
qed (use assms in \<open>simp_all add: composeLibRsbuildConfig_def\<close>)

text \<open>What the externals fragment and the entry fragment hold of the user's settings.\<close>

lemma externals_fragment_carries:
  assumes "composeExternalsConfig format externals = Inr externalsConfig"
  shows "(format = JStr ''esm'' \<longrightarrow>
            fragmentExternals externalsConfig =
              filter truthy (JFunc ModuleImportWarn
                # (case array_elements externals of Some rules \<Rightarrow> rules | None \<Rightarrow> [externals])))
       \<and> (format \<noteq> JStr ''esm'' \<longrightarrow>
            getp (getp externalsConfig ''output'') ''externals''
              = (if truthy externals then externals else JUndefined))"
  using assms
  by (auto simp: composeExternalsConfig_def fragmentExternals_def getp_JObj Let_def
      split: if_splits)

lemma entry_fragment_carries:
  assumes "composeEntryConfig env entries bundle root = Inr entryConfig"
  shows "(\<not> truthy entries \<longrightarrow> entryConfig = JObj [])
       \<and> (truthy entries \<and> bundle \<noteq> JBool False \<longrightarrow>
            getp (getp entryConfig ''source'') ''entry'' = entries)
       \<and> (truthy entries \<and> bundle = JBool False \<longrightarrow>
            (\<exists>resolved. resolveEntries env root entries (object_keys entries) [] = Inr resolved
               \<and> getp (getp entryConfig ''source'') ''entry'' = JObj resolved))"
  using assms
  by (auto simp: composeEntryConfig_def getp_JObj split: if_splits sum.splits)

text \<open>
  C1. Whenever the composition succeeds, the configuration of every library unit is the
  merge of three layers, lowest first: the built-in defaults; the merge of the nine
  computed fragments in the order format, externals, auto-extension, auto-external,
  syntax, bundle, target, entry, declaration; and the user's configuration of the unit
  (the shared settings merged with the unit's own), passed through \<open>omitDeep\<close> for the
  keys that only the library layer reads.

  The fragments are computed from the user's configuration as it is before the reset, and
  two of them hold the user's own values: the externals fragment holds the user's
  \<open>output.externals\<close> (for esm as the list of its truthy rules behind the warning
  function, for cjs and umd as it is), and the entry fragment holds the user's
  \<open>source.entry\<close> (as it is when bundling, as the resolved files in bundleless mode).
  The user layer of the final merge has these two reset: its \<open>source.entry\<close> is the
  empty mapping and it has no \<open>output.externals\<close>; every other top-level setting, every
  other setting under \<open>source\<close> and every other setting under \<open>output\<close> is the user's.
\<close>

theorem compose_precedence:
  assumes "composeCreateRsbuildConfig env rslibConfig path = (warnings, Inr composed)"
    and "i < length composed"
  shows "\<exists>libs p formatConfig externalsConfig autoExternalConfig targetConfig entryConfig
          userConfig1.
      array_elements (getp rslibConfig ''lib'') = Some libs \<and> length libs = length composed
    \<and> coalesce path (getp (getp rslibConfig ''_privateMeta'') ''configFilePath'') = JStr p
    \<and> (let userConfig = mergeRsbuildConfig env
                 [JObj (AList.delete ''lib'' (own_props rslibConfig)), libs ! i];
            pkgJson = readPackageJson env (dirname env p);
            userOutput = getp userConfig ''output'';
            userExternals = getp userOutput ''externals'';
            userEntry = getp (getp userConfig ''source'') ''entry'';
            extension = composeAutoExtensionConfig userConfig
                 (default_to (JBool True) (getp userConfig ''autoExtension'')) pkgJson
        in composeFormatConfig (getp userConfig ''format'') = Inr formatConfig
         \<and> composeExternalsConfig (getp userConfig ''format'') userExternals
             = Inr externalsConfig
         \<and> (getp userConfig ''format'' = JStr ''esm'' \<longrightarrow>
               fragmentExternals externalsConfig =
                 filter truthy (JFunc ModuleImportWarn
                   # (case array_elements userExternals of
                        Some rules \<Rightarrow> rules | None \<Rightarrow> [userExternals])))
         \<and> (getp userConfig ''format'' \<noteq> JStr ''esm'' \<longrightarrow>
               getp (getp externalsConfig ''output'') ''externals''
                 = (if truthy userExternals then userExternals else JUndefined))
         \<and> snd (composeAutoExternalConfig env
                  (default_to (JBool True) (getp userConfig ''autoExternal''))
                  pkgJson userExternals) = Inr autoExternalConfig
         \<and> composeTargetConfig env (getp userOutput ''target'') = Inr targetConfig
         \<and> composeEntryConfig env userEntry (getp userConfig ''bundle'') (dirname env p)
             = Inr entryConfig
         \<and> (\<not> truthy userEntry \<longrightarrow> entryConfig = JObj [])
         \<and> (truthy userEntry \<and> getp userConfig ''bundle'' \<noteq> JBool False \<longrightarrow>
               getp (getp entryConfig ''source'') ''entry'' = userEntry)
         \<and> (truthy userEntry \<and> getp userConfig ''bundle'' = JBool False \<longrightarrow>
               (\<exists>resolved.
                  resolveEntries env (dirname env p) userEntry (object_keys userEntry) []
                    = Inr resolved
                  \<and> getp (getp entryConfig ''source'') ''entry'' = JObj resolved))
         \<and> resetUserConfig userConfig = Inr userConfig1
         \<and> getp (getp userConfig1 ''source'') ''entry'' = JObj []
         \<and> getp (getp userConfig1 ''output'') ''externals'' = JUndefined
         \<and> (\<forall>k. k \<noteq> ''source'' \<and> k \<noteq> ''output'' \<longrightarrow> getp userConfig1 k = getp userConfig k)
         \<and> (\<forall>k. k \<noteq> ''entry'' \<longrightarrow>
               getp (getp userConfig1 ''source'') k = getp (getp userConfig ''source'') k)
         \<and> (\<forall>k. k \<noteq> ''externals'' \<longrightarrow>
               getp (getp userConfig1 ''output'') k = getp userOutput k)
         \<and> fst (composed ! i) = getp (libs ! i) ''format''
         \<and> snd (composed ! i) = mergeRsbuildConfig env
               [createInternalRsbuildConfig,
                mergeRsbuildConfig env
                  [formatConfig, externalsConfig, fst extension, autoExternalConfig,
                   composeSyntaxConfig env (getp userOutput ''syntax'')
                     (getp userOutput ''target''),
                   composeBundleConfig (fst (snd extension)) (getp userConfig ''bundle''),
                   targetConfig, entryConfig,
                   composeDtsConfig userConfig (snd (snd extension))],
                omitDeep env userConfig1 libOnlyKeys])"
proof -
  let ?shared = "JObj (AList.delete ''lib'' (own_props rslibConfig))"
  let ?configPath = "coalesce path (getp (getp rslibConfig ''_privateMeta'') ''configFilePath'')"
  from composeCreate_success [OF assms(1)] obtain libs where
    libs: "array_elements (getp rslibConfig ''lib'') = Some libs"
    and all: "collect (map (\<lambda>libConfig. snd (composeUnit env ?shared ?configPath libConfig))
                libs) = Inr composed"
    by blast
  from collect_Inr [OF all] have len: "length libs = length composed"
    and "\<forall>i < length libs.
           map (\<lambda>libConfig. snd (composeUnit env ?shared ?configPath libConfig)) libs ! i
           = Inr (composed ! i)"
    by simp_all
  with assms(2) have unit:
    "snd (composeUnit env ?shared ?configPath (libs ! i)) = Inr (composed ! i)"
    by simp
  let ?userConfig = "mergeRsbuildConfig env [?shared, libs ! i]"
  from composeUnit_success [OF unit] obtain w libRsbuildConfig userConfig1 where
    lib: "composeLibRsbuildConfig env ?userConfig ?configPath = (w, Inr libRsbuildConfig)"
    and reset: "resetUserConfig ?userConfig = Inr userConfig1"
    and result: "composed ! i = (getp (libs ! i) ''format'',
        mergeRsbuildConfig env [createInternalRsbuildConfig, libRsbuildConfig,
                                omitDeep env userConfig1 libOnlyKeys])"
    by blast
  from composeLib_success [OF lib] obtain p formatConfig externalsConfig autoExternalConfig
      targetConfig entryConfig where
    p: "?configPath = JStr p"
    and fragments:
      "composeFormatConfig (getp ?userConfig ''format'') = Inr formatConfig"
      "snd (composeAutoExternalConfig env
              (default_to (JBool True) (getp ?userConfig ''autoExternal''))
              (readPackageJson env (dirname env p))
              (getp (getp ?userConfig ''output'') ''externals'')) = Inr autoExternalConfig"
      "composeTargetConfig env (getp (getp ?userConfig ''output'') ''target'') = Inr targetConfig"
    and externals: "composeExternalsConfig (getp ?userConfig ''format'')
         (getp (getp ?userConfig ''output'') ''externals'') = Inr externalsConfig"
    and entry: "composeEntryConfig env (getp (getp ?userConfig ''source'') ''entry'')
         (getp ?userConfig ''bundle'') (dirname env p) = Inr entryConfig"
    and merged: "libRsbuildConfig = mergeRsbuildConfig env
        [formatConfig, externalsConfig,
         fst (composeAutoExtensionConfig ?userConfig
                (default_to (JBool True) (getp ?userConfig ''autoExtension''))
                (readPackageJson env (dirname env p))),
         autoExternalConfig,
         composeSyntaxConfig env (getp (getp ?userConfig ''output'') ''syntax'')
           (getp (getp ?userConfig ''output'') ''target''),
         composeBundleConfig
           (fst (snd (composeAutoExtensionConfig ?userConfig
                (default_to (JBool True) (getp ?userConfig ''autoExtension''))
                (readPackageJson env (dirname env p)))))
           (getp ?userConfig ''bundle''),
         targetConfig, entryConfig,
         composeDtsConfig ?userConfig
           (snd (snd (composeAutoExtensionConfig ?userConfig
                (default_to (JBool True) (getp ?userConfig ''autoExtension''))
                (readPackageJson env (dirname env p)))))]"
    by blast
  note frame = resetUserConfig_frame [OF reset]
  note carried = externals_fragment_carries [OF externals] entry_fragment_carries [OF entry]
  show ?thesis
    apply (rule exI [of _ libs])
    apply (rule exI [of _ p])
    apply (rule exI [of _ formatConfig])
    apply (rule exI [of _ externalsConfig])
    apply (rule exI [of _ autoExternalConfig])
    apply (rule exI [of _ targetConfig])
    apply (rule exI [of _ entryConfig])
    apply (rule exI [of _ userConfig1])
    unfolding Let_def
    using libs len p fragments externals entry reset frame carried result merged
    apply simp
    done
qed

text \<open>
  The example configuration composes. Its second unit is the cjs unit: the final
  configuration has the shared entry once, the unit's own external \<open>lodash\<close> once,
  before the rules computed from the manifest, the output directory the unit declares
  and the mode of the built-in defaults.
\<close>

lemma example_composition_run:
  "(case composeCreateRsbuildConfig exampleEnv exampleRslibConfig
           (JStr ''/project/rslib.config.ts'') of
      (warnings, Inr composed) \<Rightarrow>
        length composed = 2
        \<and> fst (composed ! 1) = JStr ''cjs''
        \<and> getp (getp (snd (composed ! 1)) ''source'') ''entry''
            = JObj [(''index'', JStr ''src/index.ts'')]
        \<and> fragmentExternals (snd (composed ! 1))
            = JStr ''lodash''
                # map (\<lambda>dep. JRegExp (subpathPattern dep)) [''bar'', ''react'', ''typescript'']
                @ map JStr [''bar'', ''react'', ''typescript'']
        \<and> getp (getp (getp (snd (composed ! 1)) ''output'') ''distPath'') ''root''
            = JStr ''./out''
        \<and> getp (snd (composed ! 1)) ''mode'' = JStr ''production''
    | (warnings, Inl e) \<Rightarrow> False)"
  by code_simp

lemma example_composition:
  "\<exists>warnings composed.
     composeCreateRsbuildConfig exampleEnv exampleRslibConfig (JStr ''/project/rslib.config.ts'')
       = (warnings, Inr composed)
     \<and> length composed = 2
     \<and> fst (composed ! 1) = JStr ''cjs''
     \<and> getp (getp (snd (composed ! 1)) ''source'') ''entry''
         = JObj [(''index'', JStr ''src/index.ts'')]
     \<and> fragmentExternals (snd (composed ! 1))
         = JStr ''lodash''
             # map (\<lambda>dep. JRegExp (subpathPattern dep)) [''bar'', ''react'', ''typescript'']
             @ map JStr [''bar'', ''react'', ''typescript'']
     \<and> getp (getp (getp (snd (composed ! 1)) ''output'') ''distPath'') ''root''
         = JStr ''./out''
     \<and> getp (snd (composed ! 1)) ''mode'' = JStr ''production''"
  using example_composition_run
  by (cases "composeCreateRsbuildConfig exampleEnv exampleRslibConfig
               (JStr ''/project/rslib.config.ts'')")
     (auto split: sum.splits)

theorem compose_precedence_witness:
  "\<exists>warnings composed libs.
     composeCreateRsbuildConfig exampleEnv exampleRslibConfig (JStr ''/project/rslib.config.ts'')
       = (warnings, Inr composed)
     \<and> 1 < length composed
     \<and> array_elements (getp exampleRslibConfig ''lib'') = Some libs
     \<and> length libs = length composed
     \<and> fst (composed ! 1) = getp (libs ! 1) ''format''
     \<and> fst (composed ! 1) = JStr ''cjs''
     \<and> getp (getp (snd (composed ! 1)) ''source'') ''entry''
         = JObj [(''index'', JStr ''src/index.ts'')]
     \<and> fragmentExternals (snd (composed ! 1))
         = JStr ''lodash''
             # map (\<lambda>dep. JRegExp (subpathPattern dep)) [''bar'', ''react'', ''typescript'']
             @ map JStr [''bar'', ''react'', ''typescript'']
     \<and> getp (getp (getp (snd (composed ! 1)) ''output'') ''distPath'') ''root''
         = JStr ''./out''
     \<and> getp (snd (composed ! 1)) ''mode'' = JStr ''production''"
proof -
  from example_composition obtain warnings composed where
    run: "composeCreateRsbuildConfig exampleEnv exampleRslibConfig
            (JStr ''/project/rslib.config.ts'') = (warnings, Inr composed)"
    and two: "length composed = 2"
    and facts: "fst (composed ! 1) = JStr ''cjs''"
      "getp (getp (snd (composed ! 1)) ''source'') ''entry''
         = JObj [(''index'', JStr ''src/index.ts'')]"
      "fragmentExternals (snd (composed ! 1))
         = JStr ''lodash''
             # map (\<lambda>dep. JRegExp (subpathPattern dep)) [''bar'', ''react'', ''typescript'']
             @ map JStr [''bar'', ''react'', ''typescript'']"
      "getp (getp (getp (snd (composed ! 1)) ''output'') ''distPath'') ''root''
         = JStr ''./out''"
      "getp (snd (composed ! 1)) ''mode'' = JStr ''production''"
    by (elim exE conjE)
  from two have pos: "1 < length composed" by simp
  from compose_precedence [OF run pos] obtain libs where
    "array_elements (getp exampleRslibConfig ''lib'') = Some libs"
    "length libs = length composed"
    "fst (composed ! 1) = getp (libs ! 1) ''format''"
    unfolding Let_def by (elim exE conjE)
  with run pos facts show ?thesis by (intro exI conjI)
qed

section \<open>Entries that match no file\<close>

text \<open>
  C6. In bundleless mode, an entry whose pattern matches no file makes the composition
  fail, and the error is \<open>Cannot find\<close> followed by the list of matched files, which is
  empty at that point: the message is the same for every entry key and every pattern,
  and names neither.
\<close>

theorem entry_not_found_message:
  assumes "glob env [JStr pattern] root = Inr []"
  shows "composeEntryConfig env (JObj [(key, JStr pattern)]) (JBool False) root
           = Inl (Error ''Cannot find '')"
  using assms
  by (simp add: composeEntryConfig_def object_keys_def getp_JObj entryFilesOf_def)

text \<open>
  The entry \<open>{ index: 'src/*.tsx' }\<close> in a project where no file matches: the message
  does not mention \<open>index\<close>.
\<close>

theorem entry_not_found_message_witness:
  "glob exampleEnv [JStr ''src/*.tsx''] ''/project'' = Inr []
   \<and> composeEntryConfig exampleEnv (JObj [(''index'', JStr ''src/*.tsx'')]) (JBool False)
         ''/project'' = Inl (Error ''Cannot find '')"
proof -
  have g: "glob exampleEnv [JStr ''src/*.tsx''] ''/project'' = Inr []"
    by (simp add: exampleEnv_def)
  from entry_not_found_message [OF g, of "''index''"] g show ?thesis by simp
qed

subsection \<open>Any entry without a match\<close>

lemma resolveEntries_empty_match:
  assumes "entryFilesOf (getp entries key) = Some entryFiles"
    and "glob env entryFiles root = Inr []"
  shows "key \<in> set keys \<Longrightarrow> isl (resolveEntries env root entries keys resolvedEntries)"
proof (induction keys arbitrary: resolvedEntries)
  case Nil
  then show ?case by simp
next
  case (Cons k keys)
  show ?case
  proof (cases "k = key")
    case True
    then show ?thesis using assms by simp
  next
    case False
    with Cons.prems have "key \<in> set keys" by simp
    then have "isl (resolveEntries env root entries keys acc)" for acc
      by (rule Cons.IH)
    then show ?thesis
      by (simp add: Let_def split: option.splits sum.splits)
  qed
qed

text \<open>
  In bundleless mode, whatever the other entries are, an entry key whose patterns match
  no file makes the resolution fail: the composition returns an error, never a fragment.
\<close>

theorem entry_without_match_fails:
  assumes "truthy entries" and "key \<in> set (object_keys entries)"
    and "entryFilesOf (getp entries key) = Some entryFiles"
    and "glob env entryFiles root = Inr []"
  shows "isl (composeEntryConfig env entries (JBool False) root)"
  using resolveEntries_empty_match [OF assms(3,4) assms(2), of "[]"] assms(1)
  by (auto simp: composeEntryConfig_def split: sum.splits)

theorem entry_without_match_fails_witness:
  "truthy (JObj [(''main'', JStr ''src/*.ts''), (''index'', JStr ''src/*.tsx'')])
   \<and> ''index'' \<in> set (object_keys (JObj [(''main'', JStr ''src/*.ts''),
                                           (''index'', JStr ''src/*.tsx'')]))
   \<and> glob exampleEnv [JStr ''src/*.tsx''] ''/project'' = Inr []
   \<and> isl (composeEntryConfig exampleEnv
             (JObj [(''main'', JStr ''src/*.ts''), (''index'', JStr ''src/*.tsx'')])
             (JBool False) ''/project'')"
proof -
  let ?entries = "JObj [(''main'', JStr ''src/*.ts''), (''index'', JStr ''src/*.tsx'')]"
  have t: "truthy ?entries" by simp
  have k: "''index'' \<in> set (object_keys ?entries)" by (simp add: object_keys_def)
  have f: "entryFilesOf (getp ?entries ''index'') = Some [JStr ''src/*.tsx'']"
    by (simp add: entryFilesOf_def getp_JObj)
  have g: "glob exampleEnv [JStr ''src/*.tsx''] ''/project'' = Inr []"
    by (simp add: exampleEnv_def)
  from entry_without_match_fails [OF t k f g] t k g show ?thesis by simp
qed

section \<open>Assembly of the environments\<close>

lemma map_of_countFormat:
  "map_of (countFormat acc unit) f =
     (if f = js_string (fst unit)
      then Some (Suc (case map_of acc f of Some n \<Rightarrow> n | None \<Rightarrow> 0))
      else map_of acc f)"
  by (simp add: countFormat_def update_conv')

lemma map_of_formatCount_aux:
  "map_of (foldl countFormat acc units) f
   = (if f \<in> set (map (\<lambda>u. js_string (fst u)) units)
      then Some (count_list (map (\<lambda>u. js_string (fst u)) units) f
                 + (case map_of acc f of Some n \<Rightarrow> n | None \<Rightarrow> 0))
      else map_of acc f)"
proof (induction units arbitrary: acc)
  case Nil
  then show ?case by simp
next
  case (Cons unit units)
  show ?case
    by (simp add: Cons.IH map_of_countFormat count_list_0_iff)
qed

lemma map_of_formatCount:
  "f \<in> set (map (\<lambda>u. js_string (fst u)) units) \<Longrightarrow>
     map_of (formatCount units) f = Some (count_list (map (\<lambda>u. js_string (fst u)) units) f)"
  by (simp add: formatCount_def map_of_formatCount_aux)

lemma update_fresh: "k \<notin> fst ` set al \<Longrightarrow> AList.update k v al = al @ [(k, v)]"
  by (induction al) auto

lemma foldl_update_fresh:
  "distinct (map fst kcs) \<Longrightarrow> fst ` set kcs \<inter> fst ` set al = {} \<Longrightarrow>
     foldl (\<lambda>acc kc. AList.update (fst kc) (snd kc) acc) al kcs = al @ kcs"
proof (induction kcs arbitrary: al)
  case Nil
  then show ?case by simp
next
  case (Cons kc kcs)
  from Cons.prems have fresh: "fst kc \<notin> fst ` set al" by auto
  have "foldl (\<lambda>acc kc. AList.update (fst kc) (snd kc) acc) (al @ [(fst kc, snd kc)]) kcs
          = (al @ [(fst kc, snd kc)]) @ kcs"
    using Cons.prems by (intro Cons.IH) auto
  then show ?case
    by (simp add: update_fresh [OF fresh])
qed

lemma lookupFormatIndex_update:
  "lookupFormatIndex (AList.update f v formatIndex) g =
     (if g = f then v else lookupFormatIndex formatIndex g)"
  by (simp add: lookupFormatIndex_def update_conv')

lemma lookupFormatIndex_initial:
  "f \<in> {''esm'', ''cjs'', ''umd''} \<Longrightarrow> lookupFormatIndex initialFormatIndex f = Some 0"
  by (auto simp: lookupFormatIndex_def initialFormatIndex_def)

lemma upt_Suc_shift: "[0..<Suc n] = 0 # map Suc [0..<n]"
  by (simp only: map_Suc_upt upt_conv_Cons [of 0 "Suc n"] zero_less_Suc)

lemma assignEnvironments_general:
  assumes counts: "\<And>f. f \<in> set fs \<Longrightarrow> map_of counts f = Some (count_list fs f)"
  shows "fs = seen @ map (\<lambda>u. js_string (fst u)) rest \<Longrightarrow>
     (\<And>f. f \<in> set (map (\<lambda>u. js_string (fst u)) rest) \<Longrightarrow>
            lookupFormatIndex formatIndex f = Some (count_list seen f)) \<Longrightarrow>
     assignEnvironments counts rest formatIndex environments =
       foldl (\<lambda>acc kc. AList.update (fst kc) (snd kc) acc) environments
         (map (\<lambda>j. (specEnvironmentKey fs (length seen + j), snd (rest ! j)))
              [0..<length rest])"
proof (induction rest arbitrary: seen formatIndex environments)
  case Nil
  then show ?case by simp
next
  case (Cons unit rest)
  obtain format config where unit: "unit = (format, config)" by (cases unit)
  let ?f = "js_string format"
  have fs: "fs = seen @ ?f # map (\<lambda>u. js_string (fst u)) rest"
    using Cons.prems(1) unit by simp
  then have "?f \<in> set fs" by simp
  then have cnt: "map_of counts ?f = Some (count_list fs ?f)" by (rule counts)
  have cur: "lookupFormatIndex formatIndex ?f = Some (count_list seen ?f)"
    by (rule Cons.prems(2)) (simp add: unit)
  have at: "fs ! length seen = ?f" and before: "take (length seen) fs = seen"
    by (simp_all add: fs)
  have key: "environmentKey (map_of counts ?f) ?f (lookupFormatIndex formatIndex ?f)
               = specEnvironmentKey fs (length seen)"
    by (simp add: environmentKey_def specEnvironmentKey_def cnt cur at before)
  let ?formatIndex = "AList.update ?f (map_option Suc (lookupFormatIndex formatIndex ?f)) formatIndex"
  have step: "assignEnvironments counts rest ?formatIndex
          (AList.update (specEnvironmentKey fs (length seen)) config environments) =
        foldl (\<lambda>acc kc. AList.update (fst kc) (snd kc) acc)
          (AList.update (specEnvironmentKey fs (length seen)) config environments)
          (map (\<lambda>j. (specEnvironmentKey fs (length (seen @ [?f]) + j), snd (rest ! j)))
               [0..<length rest])"
  proof (rule Cons.IH)
    show "fs = (seen @ [?f]) @ map (\<lambda>u. js_string (fst u)) rest"
      by (simp add: fs)
  next
    fix g
    assume "g \<in> set (map (\<lambda>u. js_string (fst u)) rest)"
    then have "lookupFormatIndex formatIndex g = Some (count_list seen g)"
      by (intro Cons.prems(2)) simp
    then show "lookupFormatIndex ?formatIndex g = Some (count_list (seen @ [?f]) g)"
      by (simp add: lookupFormatIndex_update cur)
  qed
  have "assignEnvironments counts (unit # rest) formatIndex environments =
        assignEnvironments counts rest ?formatIndex
          (AList.update (specEnvironmentKey fs (length seen)) config environments)"
    by (simp add: unit Let_def key)
  also note step
  finally show ?case
    by (simp only: upt_Suc_shift length_Cons list.map foldl_Cons map_map comp_def
          nth_Cons_0 nth_Cons_Suc fst_conv snd_conv unit length_append list.size
          add_Suc_right add_0_right add_Suc One_nat_def Nat.add_0_right)
qed

lemma count_take_Suc:
  "i < length fs \<Longrightarrow>
     count_list (take (Suc i) fs) x = count_list (take i fs) x + (if fs ! i = x then 1 else 0)"
  by (simp add: take_Suc_conv_app_nth)

lemma count_take_mono:
  assumes "i \<le> j"
  shows "count_list (take i fs) x \<le> count_list (take j fs) x"
proof -
  from assms obtain k where "j = i + k" by (auto simp: le_iff_add)
  then have "take j fs = take i fs @ take k (drop i fs)" by (simp add: take_add)
  then show ?thesis by simp
qed

lemma count_take_le: "count_list (take i fs) x \<le> count_list fs x"
proof -
  have "count_list fs x = count_list (take i fs) x + count_list (drop i fs) x"
    by (metis append_take_drop_id count_list_append)
  then show ?thesis by arith
qed

lemma count_take_strict:
  assumes "i < j" and "i < length fs" and "fs ! i = x"
  shows "count_list (take i fs) x < count_list (take j fs) x"
proof -
  have "count_list (take (Suc i) fs) x = Suc (count_list (take i fs) x)"
    using assms(2,3) by (simp add: count_take_Suc)
  moreover have "count_list (take (Suc i) fs) x \<le> count_list (take j fs) x"
    using assms(1) by (intro count_take_mono) simp
  ultimately show ?thesis by arith
qed

lemma count_one_unique:
  assumes "count_list fs x = 1" and "i < j" and "j < length fs"
    and "fs ! i = x" and "fs ! j = x"
  shows False
proof -
  have "count_list (take i fs) x < count_list (take j fs) x"
    using assms by (intro count_take_strict) simp_all
  moreover have "count_list (take (Suc j) fs) x = Suc (count_list (take j fs) x)"
    using assms by (simp add: count_take_Suc)
  moreover have "count_list (take (Suc j) fs) x \<le> count_list fs x"
    by (rule count_take_le)
  ultimately show False using assms(1) by arith
qed

lemma specEnvironmentKey_ordered:
  assumes formats: "set fs \<subseteq> {''esm'', ''cjs'', ''umd''}"
    and "i < j" and "j < length fs"
    and same: "specEnvironmentKey fs i = specEnvironmentKey fs j"
  shows False
proof -
  let ?f = "fs ! i" and ?g = "fs ! j"
  have i: "i < length fs" using assms by simp
  have "?f \<in> set fs" "?g \<in> set fs" using i assms(3) by simp_all
  with formats have len: "length ?f = 3" "length ?g = 3" by auto
  consider (bare) "count_list fs ?f = 1" "count_list fs ?g = 1"
    | (left) "count_list fs ?f = 1" "count_list fs ?g \<noteq> 1"
    | (right) "count_list fs ?f \<noteq> 1" "count_list fs ?g = 1"
    | (indexed) "count_list fs ?f \<noteq> 1" "count_list fs ?g \<noteq> 1"
    by blast
  then show False
  proof cases
    case bare
    with same have "?f = ?g" by (simp add: specEnvironmentKey_def)
    with bare(1) assms(2,3) show False
      by (intro count_one_unique [of fs ?f i j]) simp_all
  next
    case left
    with same have "?f = ?g @ decimal (count_list (take j fs) ?g)"
      by (simp add: specEnvironmentKey_def)
    then have "length ?f = length ?g + length (decimal (count_list (take j fs) ?g))"
      by (metis length_append)
    with len decimal_not_Nil [of "count_list (take j fs) ?g"] show False by simp
  next
    case right
    with same have "?f @ decimal (count_list (take i fs) ?f) = ?g"
      by (simp add: specEnvironmentKey_def)
    then have "length ?f + length (decimal (count_list (take i fs) ?f)) = length ?g"
      by (metis length_append)
    with len decimal_not_Nil [of "count_list (take i fs) ?f"] show False by simp
  next
    case indexed
    with same have "?f @ decimal (count_list (take i fs) ?f)
                      = ?g @ decimal (count_list (take j fs) ?g)"
      by (simp add: specEnvironmentKey_def)
    moreover have "length ?f = length ?g" using len by simp
    ultimately have both: "?f = ?g \<and> decimal (count_list (take i fs) ?f)
                                   = decimal (count_list (take j fs) ?g)"
      by (metis append_eq_append_conv)
    then have "count_list (take i fs) ?f = count_list (take j fs) ?g"
      by (intro decimal_inj) (rule conjunct2)
    with both have "count_list (take i fs) ?f = count_list (take j fs) ?f"
      by (simp only:)
    moreover have "count_list (take i fs) ?f < count_list (take j fs) ?f"
      using assms(2) i by (intro count_take_strict) simp_all
    ultimately show False by simp
  qed
qed

lemma specEnvironmentKey_inj:
  assumes "set fs \<subseteq> {''esm'', ''cjs'', ''umd''}"
  shows "inj_on (specEnvironmentKey fs) {0..<length fs}"
proof (rule inj_onI)
  fix i j
  assume "i \<in> {0..<length fs}" "j \<in> {0..<length fs}"
    and same: "specEnvironmentKey fs i = specEnvironmentKey fs j"
  then have i: "i < length fs" and j: "j < length fs" by simp_all
  show "i = j"
  proof (cases i j rule: linorder_cases)
    case less
    from specEnvironmentKey_ordered [OF assms less j same] show ?thesis ..
  next
    case equal
    then show ?thesis .
  next
    case greater
    from specEnvironmentKey_ordered [OF assms greater i same [symmetric]] show ?thesis ..
  qed
qed

lemma assembleEnvironments_keys:
  assumes "set (map fst units) \<subseteq> {JStr ''esm'', JStr ''cjs'', JStr ''umd''}"
  shows "assembleEnvironments units =
           map (\<lambda>i. (specEnvironmentKey (map (\<lambda>u. js_string (fst u)) units) i, snd (units ! i)))
               [0..<length units]"
    and "distinct (map fst (assembleEnvironments units))"
proof -
  let ?fs = "map (\<lambda>u. js_string (fst u)) units"
  let ?kcs = "map (\<lambda>i. (specEnvironmentKey ?fs i, snd (units ! i))) [0..<length units]"
  have formats: "set ?fs \<subseteq> {''esm'', ''cjs'', ''umd''}"
    using assms by auto
  have "assignEnvironments (formatCount units) units initialFormatIndex [] =
          foldl (\<lambda>acc kc. AList.update (fst kc) (snd kc) acc) []
            (map (\<lambda>j. (specEnvironmentKey ?fs (length ([] :: string list) + j), snd (units ! j)))
                 [0..<length units])"
  proof (rule assignEnvironments_general)
    show "map_of (formatCount units) f = Some (count_list ?fs f)" if "f \<in> set ?fs" for f
      using that by (rule map_of_formatCount)
    show "?fs = [] @ ?fs" by simp
    show "lookupFormatIndex initialFormatIndex f = Some (count_list [] f)"
      if "f \<in> set ?fs" for f
    proof -
      from that formats have "f \<in> {''esm'', ''cjs'', ''umd''}" by blast
      then show ?thesis by (simp only: lookupFormatIndex_initial count_list.simps)
    qed
  qed
  then have fold: "assembleEnvironments units =
      foldl (\<lambda>acc kc. AList.update (fst kc) (snd kc) acc) [] ?kcs"
    by (simp add: assembleEnvironments_def)
  have keys: "map fst ?kcs = map (specEnvironmentKey ?fs) [0..<length units]"
    by (simp add: comp_def)
  have dist: "distinct (map fst ?kcs)"
    unfolding keys using specEnvironmentKey_inj [OF formats]
    by (simp add: distinct_map)
  then have "foldl (\<lambda>acc kc. AList.update (fst kc) (snd kc) acc) [] ?kcs = [] @ ?kcs"
    by (rule foldl_update_fresh) simp
  with fold show eq: "assembleEnvironments units = ?kcs" by simp
  from dist show "distinct (map fst (assembleEnvironments units))"
    unfolding eq .
qed

text \<open>
  C4. For an ordered list of composed units whose formats are among esm, cjs and umd, the
  environment map holds one entry per unit, in declaration order; the unit at position
  \<open>i\<close> is stored under the bare format when its format occurs exactly once in the
  list, and otherwise under the format followed by the zero-based count of the earlier
  units of the same format. The keys are pairwise different, so every unit is found
  under its key.
\<close>

theorem environment_keys:
  assumes "set (map fst units) \<subseteq> {JStr ''esm'', JStr ''cjs'', JStr ''umd''}"
  shows "assembleEnvironments units =
           map (\<lambda>i. (specEnvironmentKey (map (\<lambda>u. js_string (fst u)) units) i, snd (units ! i)))
               [0..<length units]
       \<and> distinct (map fst (assembleEnvironments units))
       \<and> (\<forall>i < length units.
            map_of (assembleEnvironments units)
              (specEnvironmentKey (map (\<lambda>u. js_string (fst u)) units) i)
            = Some (snd (units ! i)))"
proof -
  let ?key = "specEnvironmentKey (map (\<lambda>u. js_string (fst u)) units)"
  note eq = assembleEnvironments_keys(1) [OF assms]
  note dist = assembleEnvironments_keys(2) [OF assms]
  have "map_of (assembleEnvironments units) (?key i) = Some (snd (units ! i))"
    if "i < length units" for i
  proof -
    have "(?key i, snd (units ! i)) \<in> set (assembleEnvironments units)"
      unfolding eq using that by (auto simp: image_iff intro!: bexI [of _ i])
    with dist show ?thesis by (simp only: map_of_eq_Some_iff)
  qed
  with eq dist show ?thesis by blast
qed

text \<open>
  The formats esm, esm, cjs in this order give the keys \<open>esm0\<close>, \<open>esm1\<close> and \<open>cjs\<close>.
\<close>

theorem environment_keys_witness:
  "set (map fst [(JStr ''esm'', JStr ''first''), (JStr ''esm'', JStr ''second''),
                 (JStr ''cjs'', JStr ''third'')])
     \<subseteq> {JStr ''esm'', JStr ''cjs'', JStr ''umd''}
   \<and> assembleEnvironments [(JStr ''esm'', JStr ''first''), (JStr ''esm'', JStr ''second''),
                           (JStr ''cjs'', JStr ''third'')]
       = [(''esm0'', JStr ''first''), (''esm1'', JStr ''second''), (''cjs'', JStr ''third'')]"
proof -
  have formats: "set (map fst [(JStr ''esm'', JStr ''first''), (JStr ''esm'', JStr ''second''),
                               (JStr ''cjs'', JStr ''third'')])
                   \<subseteq> {JStr ''esm'', JStr ''cjs'', JStr ''umd''}"
    by simp
  have three: "[0..<3] = [0, 1, 2]"
    by (simp add: upt_conv_Cons)
  show ?thesis
    using environment_keys [OF formats] formats
    by (simp add: specEnvironmentKey_def decimal_small digit_values three)
qed

section \<open>The subpath pattern of a dependency\<close>

text \<open>
  C3. The name of a dependency is placed in the pattern as it is, so a character of the
  name that the pattern language reads as an operator is not matched literally. The
  dependency \<open>lodash.merge\<close> gets a prefix rule whose \<open>.\<close> stands for any character:
  the rule excludes \<open>lodash-merge\<close> and \<open>lodash-merge/index.js\<close>, which are not that
  name followed by \<open>/\<close>, \<open>\\<close> or the end of the input.
\<close>

theorem subpath_pattern_unescaped:
  "snd (composeAutoExternalConfig exampleEnv (JBool True)
          (JObj [(''dependencies'', JObj [(''lodash.merge'', JStr ''^4.6.2'')])]) JUndefined)
     = Inr (JObj [(''output'', JObj [(''externals'',
         JArr [JRegExp (subpathPattern ''lodash.merge''), JStr ''lodash.merge''])])])
   \<and> JRegExp (subpathPattern ''lodash.merge'')
       \<in> set (fragmentExternals (JObj [(''output'', JObj [(''externals'',
               JArr [JRegExp (subpathPattern ''lodash.merge''), JStr ''lodash.merge''])])]))
   \<and> regexp_test (subpathPattern ''lodash.merge'') ''lodash-merge'' = Some True
   \<and> regexp_test (subpathPattern ''lodash.merge'') ''lodash-merge/index.js'' = Some True
   \<and> regexp_test (subpathPattern ''lodash.merge'') ''lodash.merge/index.js'' = Some True"
proof -
  let ?pkgJson = "JObj [(''dependencies'', JObj [(''lodash.merge'', JStr ''^4.6.2'')])]"
  have names: "autoExternals exampleEnv (JBool True) ?pkgJson JUndefined = [''lodash.merge'']"
    by (simp add: autoExternals_def dependencyTypes_def externalOptions_def spread_empty
        getp_JObj object_keys_def userExternalKeys_def)
  have accepted: "exampleAccepts (subpathPattern ''lodash.merge'')"
    by code_simp
  have engine: "regExpAccepts exampleEnv = exampleAccepts"
    by (simp add: exampleEnv_def)
  have on: "truthy (JBool True)" and manifest: "truthy ?pkgJson"
    by simp_all
  have fragment: "snd (composeAutoExternalConfig exampleEnv (JBool True) ?pkgJson JUndefined)
     = Inr (JObj [(''output'', JObj [(''externals'',
         JArr [JRegExp (subpathPattern ''lodash.merge''), JStr ''lodash.merge''])])])"
    unfolding composeAutoExternal_result [OF on manifest] names engine
    by (simp add: unique_def accepted)
  have rule: "JRegExp (subpathPattern ''lodash.merge'')
       \<in> set (fragmentExternals (JObj [(''output'', JObj [(''externals'',
               JArr [JRegExp (subpathPattern ''lodash.merge''), JStr ''lodash.merge''])])]))"
    by (simp add: fragmentExternals_def getp_JObj)
  have other: "regexp_test (subpathPattern ''lodash.merge'') ''lodash-merge'' = Some True"
    by code_simp
  have deep: "regexp_test (subpathPattern ''lodash.merge'') ''lodash-merge/index.js'' = Some True"
    by code_simp
  have own: "regexp_test (subpathPattern ''lodash.merge'') ''lodash.merge/index.js'' = Some True"
    by code_simp
  from fragment rule other deep own show ?thesis by (intro conjI)
qed

lemma rx_tokens_plain:
  assumes "rx_tokens suffix = Some ts" and "suffix \<noteq> []"
  shows "plainName dep \<Longrightarrow> rx_tokens (dep @ suffix) = Some (map TChar dep @ ts)"
proof (induction dep)
  case Nil
  then show ?case using assms by simp
next
  case (Cons c dep)
  from assms(2) obtain d rest where nxt: "dep @ suffix = d # rest"
    by (cases "dep @ suffix") auto
  from Cons.prems have c: "c \<noteq> backslash" "token_of c = Some (TChar c)"
    and "plainName dep"
    by (simp_all add: plainName_def)
  from Cons.IH [OF this(3)] nxt have "rx_tokens (d # rest) = Some (map TChar dep @ ts)"
    by simp
  then have "rx_tokens (c # d # rest) = Some (TChar c # map TChar dep @ ts)"
    using c by simp
  then show ?case using nxt by simp
qed

lemma rx_tokens_boundary:
  "rx_tokens (''($|'' @ [backslash] @ ''/|'' @ [backslash, backslash] @ '')'')
     = Some [TOpen, TEnd, TBar, TChar CHR ''/'', TBar, TChar backslash, TClose]"
  by (simp add: token_of_def backslash_def wordChars_def)

lemma rx_tokens_subpathPattern:
  assumes "plainName dep"
  shows "rx_tokens (subpathPattern dep)
     = Some (TStart # map TChar dep
               @ [TOpen, TEnd, TBar, TChar CHR ''/'', TBar, TChar backslash, TClose])"
proof -
  let ?suffix = "''($|'' @ [backslash] @ ''/|'' @ [backslash, backslash] @ '')''"
  have rest: "rx_tokens (dep @ ?suffix) = Some (map TChar dep
               @ [TOpen, TEnd, TBar, TChar CHR ''/'', TBar, TChar backslash, TClose])"
    using rx_tokens_boundary _ assms by (rule rx_tokens_plain) simp
  obtain d cs where nxt: "dep @ ?suffix = d # cs"
    by (cases "dep @ ?suffix") auto
  have "rx_tokens (CHR ''^'' # d # cs) = map_option (Cons TStart) (rx_tokens (d # cs))"
    by (simp add: token_of_def backslash_def)
  with rest nxt show ?thesis
    by (simp add: subpathPattern_def)
qed

lemma rx_parse_chars:
  "rx_parse ts = Some atoms \<Longrightarrow>
     rx_parse (map TChar dep @ ts) = Some (map (\<lambda>c. Simple (SChar c)) dep @ atoms)"
  by (induction dep) simp_all

lemma rx_parse_subpathPattern:
  "rx_parse (TStart # map TChar dep
               @ [TOpen, TEnd, TBar, TChar CHR ''/'', TBar, TChar backslash, TClose])
     = Some (Simple SStart # map (\<lambda>c. Simple (SChar c)) dep
               @ [Group [[SEnd], [SChar CHR ''/''], [SChar backslash]]])"
proof -
  have "rx_parse [TOpen, TEnd, TBar, TChar CHR ''/'', TBar, TChar backslash, TClose]
          = Some [Group [[SEnd], [SChar CHR ''/''], [SChar backslash]]]"
    by simp
  from rx_parse_chars [OF this, of dep] show ?thesis by simp
qed

lemma rx_match_chars:
  "rx_match (map (\<lambda>c. Simple (SChar c)) dep @ rest) atStart input =
     (take (length dep) input = dep
      \<and> rx_match rest (if dep = [] then atStart else False) (drop (length dep) input))"
proof (induction dep arbitrary: atStart input)
  case Nil
  then show ?case by simp
next
  case (Cons c dep)
  show ?case
  proof (cases input)
    case Nil
    then show ?thesis by simp
  next
    case (Cons d ds)
    have tail: "rx_match rest (if dep = [] then False else False) (drop (length dep) ds)
                  = rx_match rest False (drop (length dep) ds)"
      by simp
    show ?thesis
      unfolding Cons by (auto simp: Cons.IH tail)
  qed
qed

lemma rx_match_boundary:
  "rx_match [Group [[SEnd], [SChar CHR ''/''], [SChar backslash]]] atStart input =
     (case input of [] \<Rightarrow> True | c # rest \<Rightarrow> c = CHR ''/'' \<or> c = backslash)"
  by (cases input) auto

lemma rx_match_subpathPattern:
  "rx_match (Simple SStart # map (\<lambda>c. Simple (SChar c)) dep
               @ [Group [[SEnd], [SChar CHR ''/''], [SChar backslash]]]) atStart input
     = (atStart \<and> subpathOf dep input)"
proof -
  have "rx_match (map (\<lambda>c. Simple (SChar c)) dep
               @ [Group [[SEnd], [SChar CHR ''/''], [SChar backslash]]]) b input
          = subpathOf dep input" for b
    unfolding rx_match_chars rx_match_boundary subpathOf_def ..
  then show ?thesis by simp
qed

text \<open>
  For a name without such characters the prefix rule does what is intended: it matches
  exactly the inputs that are the name itself or the name followed by \<open>/\<close> or by a
  backslash and anything after; it matches no input in which the name is merely a
  substring or is followed by another character.
\<close>

theorem subpath_pattern_plain_names:
  assumes "plainName dep"
  shows "regexp_test (subpathPattern dep) input = Some (subpathOf dep input)"
proof -
  have "list_ex (\<lambda>i. i = 0 \<and> subpathOf dep (drop i input)) [0..<Suc (length input)]
          = subpathOf dep input"
    by (auto simp: list_ex_iff simp del: upt_Suc)
  then show ?thesis
    unfolding regexp_test_def
    by (simp only: rx_tokens_subpathPattern [OF assms] rx_parse_subpathPattern
        rx_match_subpathPattern option.case)
qed

theorem subpath_pattern_plain_names_witness:
  "plainName ''react''
   \<and> regexp_test (subpathPattern ''react'') ''react'' = Some True
   \<and> regexp_test (subpathPattern ''react'') ''react/jsx-runtime'' = Some True
   \<and> regexp_test (subpathPattern ''react'') ''react-dom'' = Some False
   \<and> regexp_test (subpathPattern ''react'') ''preact'' = Some False"
proof -
  have plain: "plainName ''react''"
    by (simp add: plainName_def token_of_def backslash_def)
  show ?thesis
    using subpath_pattern_plain_names [OF plain, of "''react''"]
      subpath_pattern_plain_names [OF plain, of "''react/jsx-runtime''"]
      subpath_pattern_plain_names [OF plain, of "''react-dom''"]
      subpath_pattern_plain_names [OF plain, of "''preact''"] plain
    by (simp add: subpathOf_def backslash_def)
qed


end
